theory Spec2Isabelle
  imports Main
begin

section \<open>Strings\<close>

text \<open>
  A Go string is a sequence of bytes; it is modelled as a \<^typ>\<open>string\<close> (a list of
  8-bit characters), so \<^term>\<open>length\<close> is Go's \<^verbatim>\<open>len\<close>.

  \<^verbatim>\<open>strings.Split(s, sep)\<close> for a one-byte separator: the pieces of \<open>s\<close> between the
  occurrences of the separator. The result is never empty (so the last case below is
  never taken); the empty string splits into one empty piece.
\<close>

fun Split :: "char \<Rightarrow> string \<Rightarrow> string list" where
  "Split c [] = [[]]"
| "Split c (x # xs) =
     (if x = c then [] # Split c xs
      else (case Split c xs of w # ws \<Rightarrow> (x # w) # ws | [] \<Rightarrow> [[x]]))"

text \<open>\<^verbatim>\<open>strings.Join(elems, sep)\<close>.\<close>

fun Join :: "string list \<Rightarrow> string \<Rightarrow> string" where
  "Join [] sep = []"
| "Join [x] sep = x"
| "Join (x # y # ys) sep = x @ sep @ Join (y # ys) sep"

section \<open>The routing configuration\<close>

text \<open>
  \<^verbatim>\<open>type delivery struct { name DeliveryType; recipients []string }\<close>,
  \<^verbatim>\<open>type target struct { deliveries []*delivery }\<close> and
  \<^verbatim>\<open>type TargetsConfig struct { targets map[string]*target }\<close>.
  The pointers are never shared between two targets or two deliveries, so the
  structures are modelled by value and an update through a pointer becomes an update
  of the enclosing list and map. A Go map may be \<^verbatim>\<open>nil\<close>: the field is an option,
  and reading a nil map is reading an empty one.
\<close>

type_synonym DeliveryType = string

record delivery =
  name :: DeliveryType
  recipients :: "string list"

record target =
  deliveries :: "delivery list"

record TargetsConfig =
  targets :: "(string \<rightharpoonup> target) option"

definition DeliverySMTP :: DeliveryType where
  "DeliverySMTP = ''smtp''"

datatype valErrKind =
  errKindInvTargetSyntax
| errKindEmptyTargets
| errKindUnsupportedDelivery
| errKindInvalidEmail

record valError =
  kind :: valErrKind
  target :: string

text \<open>Reading the map of a configuration, nil or not.\<close>

definition targets_of :: "TargetsConfig \<Rightarrow> (string \<rightharpoonup> target)" where
  "targets_of cnf = (case targets cnf of None \<Rightarrow> Map.empty | Some m \<Rightarrow> m)"

text \<open>The zero value \<^verbatim>\<open>TargetsConfig{}\<close>.\<close>

definition empty_config :: TargetsConfig where
  "empty_config = \<lparr>targets = None\<rparr>"

subsection \<open>Decode\<close>

text \<open>
  The inner loop of \<^verbatim>\<open>Decode\<close> looks for the first delivery of the target with the
  given name: its index, when there is one.
\<close>

fun find_delivery :: "DeliveryType \<Rightarrow> delivery list \<Rightarrow> nat option" where
  "find_delivery n [] = None"
| "find_delivery n (d # ds) =
     (if name d = n then Some 0
      else (case find_delivery n ds of None \<Rightarrow> None | Some i \<Rightarrow> Some (Suc i)))"

text \<open>
  One iteration of the loop of \<^verbatim>\<open>Decode\<close> on the entry \<open>v\<close>: either the error the
  loop returns with, or the map after the entry has been inserted.
\<close>

definition decode_entry :: "(string \<rightharpoonup> target) \<Rightarrow> string \<Rightarrow> valError + (string \<rightharpoonup> target)" where
  "decode_entry m v =
     (let elem = Split CHR '':'' v in
      if length elem \<noteq> 3 then Inl \<lparr>kind = errKindInvTargetSyntax, target = v\<rparr>
      else
        let tgtName = elem ! 0; dlvName = elem ! 1; rcpt = elem ! 2 in
        if tgtName = [] \<or> dlvName = [] \<or> rcpt = []
        then Inl \<lparr>kind = errKindInvTargetSyntax, target = v\<rparr>
        else
          let tgt = (case m tgtName of None \<Rightarrow> \<lparr>deliveries = []\<rparr> | Some t \<Rightarrow> t);
              ds = deliveries tgt;
              (ds', i) = (case find_delivery dlvName ds of
                            None \<Rightarrow> (ds @ [\<lparr>name = dlvName, recipients = []\<rparr>], length ds)
                          | Some i \<Rightarrow> (ds, i));
              dlv = ds' ! i
          in Inr (m(tgtName \<mapsto> tgt\<lparr>deliveries := ds'[i := dlv\<lparr>recipients := recipients dlv @ [rcpt]\<rparr>]\<rparr>)))"

text \<open>
  The loop over the entries. It returns the map as the loop leaves it, together with
  the error, if any: an error ends the loop and keeps what earlier iterations stored.
\<close>

fun decode_loop :: "(string \<rightharpoonup> target) \<Rightarrow> string list \<Rightarrow> (string \<rightharpoonup> target) \<times> valError option" where
  "decode_loop m [] = (m, None)"
| "decode_loop m (v # vs) =
     (case decode_entry m v of
        Inl e \<Rightarrow> (m, Some e)
      | Inr m' \<Rightarrow> decode_loop m' vs)"

text \<open>
  \<^verbatim>\<open>func (cnf *TargetsConfig) Decode(value string) error\<close>: the receiver after the
  call and the error returned (\<open>None\<close> is \<^verbatim>\<open>nil\<close>).
\<close>

definition Decode :: "TargetsConfig \<Rightarrow> string \<Rightarrow> TargetsConfig \<times> valError option" where
  "Decode cnf val =
     (if val = [] then (cnf, None)
      else
        let m = (case targets cnf of None \<Rightarrow> Map.empty | Some m \<Rightarrow> m);
            (m', err) = decode_loop m (Split CHR '','' val)
        in (cnf\<lparr>targets := Some m'\<rparr>, err))"


subsection \<open>MarshalJSON\<close>

text \<open>
  \<^verbatim>\<open>fmt.Sprintf("%s:%s:%s", targetName, delivery.name, recipient)\<close>.
\<close>

definition targetString :: "string \<Rightarrow> DeliveryType \<Rightarrow> string \<Rightarrow> string" where
  "targetString targetName dlvName recipient = targetName @ '':'' @ dlvName @ '':'' @ recipient"

text \<open>
  Go visits the keys of a map in an order it does not specify, and the order may differ
  from one \<^verbatim>\<open>range\<close> to the next. A function that ranges over the targets therefore
  takes the order of this visit as an argument \<open>ks\<close>; \<open>key_order\<close> says that \<open>ks\<close> lists
  each key of the map once.
\<close>

definition key_order :: "('k \<rightharpoonup> 'v) \<Rightarrow> 'k list \<Rightarrow> bool" where
  "key_order m ks = (distinct ks \<and> set ks = dom m)"

text \<open>The slice \<open>vv\<close> that \<^verbatim>\<open>MarshalJSON\<close> builds: one string for each recipient.\<close>

definition marshal_entries :: "string list \<Rightarrow> TargetsConfig \<Rightarrow> string list" where
  "marshal_entries ks cnf =
     concat (map (\<lambda>targetName.
       case targets_of cnf targetName of
         None \<Rightarrow> []
       | Some tg \<Rightarrow>
           concat (map (\<lambda>d. map (\<lambda>recipient. targetString targetName (name d) recipient)
                                (recipients d))
                       (deliveries tg))) ks)"

text \<open>
  \<^verbatim>\<open>func (cnf TargetsConfig) MarshalJSON() ([]byte, error)\<close>. The error is always nil.
  \<open>quote\<close> stands for the verb \<^verbatim>\<open>%q\<close> of package \<^verbatim>\<open>fmt\<close> (\<^verbatim>\<open>strconv.Quote\<close>), which is
  not part of this repository.
\<close>

definition MarshalJSON :: "(string \<Rightarrow> string) \<Rightarrow> string list \<Rightarrow> TargetsConfig \<Rightarrow> string" where
  "MarshalJSON quote ks cnf = quote (Join (marshal_entries ks cnf) '','')"

section \<open>Validation\<close>

subsection \<open>The pattern of an email address\<close>

text \<open>
  \<^verbatim>\<open>reEmail.MatchString(recipient)\<close> reports whether some substring of the recipient
  belongs to the language of the pattern. The classes of the pattern hold ASCII
  characters only, so the match can be decided byte by byte. Regular expressions are
  given by their syntax and matched with derivatives.
\<close>

datatype rx = Zero | One | Chars "char list" | AnyChar | Alt rx rx | Seq rx rx | Star rx

fun nullable :: "rx \<Rightarrow> bool" where
  "nullable Zero = False"
| "nullable One = True"
| "nullable (Chars cs) = False"
| "nullable AnyChar = False"
| "nullable (Alt r s) = (nullable r \<or> nullable s)"
| "nullable (Seq r s) = (nullable r \<and> nullable s)"
| "nullable (Star r) = True"

fun alt :: "rx \<Rightarrow> rx \<Rightarrow> rx" where
  "alt Zero s = s"
| "alt r Zero = r"
| "alt r s = Alt r s"

fun seq :: "rx \<Rightarrow> rx \<Rightarrow> rx" where
  "seq Zero s = Zero"
| "seq r Zero = Zero"
| "seq One s = s"
| "seq r s = Seq r s"

fun deriv :: "char \<Rightarrow> rx \<Rightarrow> rx" where
  "deriv c Zero = Zero"
| "deriv c One = Zero"
| "deriv c (Chars cs) = (if c \<in> set cs then One else Zero)"
| "deriv c AnyChar = One"
| "deriv c (Alt r s) = alt (deriv c r) (deriv c s)"
| "deriv c (Seq r s) =
     (if nullable r then alt (seq (deriv c r) s) (deriv c s) else seq (deriv c r) s)"
| "deriv c (Star r) = seq (deriv c r) (Star r)"

fun derivs :: "rx \<Rightarrow> string \<Rightarrow> rx" where
  "derivs r [] = r"
| "derivs r (c # cs) = derivs (deriv c r) cs"

definition MatchString :: "rx \<Rightarrow> string \<Rightarrow> bool" where
  "MatchString r s = nullable (derivs (Seq (Star AnyChar) (Seq r (Star AnyChar))) s)"

definition Plus :: "rx \<Rightarrow> rx" where
  "Plus r = Seq r (Star r)"

definition Opt :: "rx \<Rightarrow> rx" where
  "Opt r = Alt r One"

definition alnum :: "char list" where
  "alnum = ''abcdefghijklmnopqrstuvwxyz0123456789''"

text \<open>The class \<^verbatim>\<open>[a-z0-9!#$%&'*+/=?^_`{|}~-]\<close>.\<close>

definition atext :: "char list" where
  "atext = alnum @ ''!#$%&'' @ [CHR 0x27] @ ''*+/=?^_`{|}~-''"

text \<open>\<^verbatim>\<open>[a-z0-9](?:[a-z0-9-]*[a-z0-9])?\<close>\<close>

definition label :: rx where
  "label = Seq (Chars alnum) (Opt (Seq (Star (Chars (alnum @ ''-''))) (Chars alnum)))"

text \<open>
  \<^verbatim>\<open>[a-z0-9!#$%&'*+/=?^_`{|}~-]+(?:\.[a-z0-9!#$%&'*+/=?^_`{|}~-]+)*@(?:[a-z0-9](?:[a-z0-9-]*[a-z0-9])?\.)+[a-z0-9](?:[a-z0-9-]*[a-z0-9])?\<close>
\<close>

definition reEmail :: rx where
  "reEmail =
     Seq (Plus (Chars atext))
       (Seq (Star (Seq (Chars ''.'') (Plus (Chars atext))))
         (Seq (Chars ''@'')
           (Seq (Plus (Seq label (Chars ''.''))) label)))"

text \<open>
  The language of a regular expression, with the iteration of a set of strings as an
  inductive set: the lemma \<open>MatchString_substring\<close> below shows that \<open>MatchString\<close> holds
  exactly of the strings with a substring in the language.
\<close>

inductive_set star :: "string set \<Rightarrow> string set" for A :: "string set" where
  star_Nil: "[] \<in> star A"
| star_step: "u \<in> A \<Longrightarrow> v \<in> star A \<Longrightarrow> u @ v \<in> star A"

fun lang :: "rx \<Rightarrow> string set" where
  "lang Zero = {}"
| "lang One = {[]}"
| "lang (Chars cs) = {[c] | c. c \<in> set cs}"
| "lang AnyChar = {[c] | c. True}"
| "lang (Alt r s) = lang r \<union> lang s"
| "lang (Seq r s) = {u @ v | u v. u \<in> lang r \<and> v \<in> lang s}"
| "lang (Star r) = star (lang r)"

subsection \<open>validateTargetConfig\<close>

text \<open>
  A loop whose body may return an error: the error of the first element that has one.
\<close>

fun first_error :: "('a \<Rightarrow> valError option) \<Rightarrow> 'a list \<Rightarrow> valError option" where
  "first_error f [] = None"
| "first_error f (x # xs) = (case f x of Some e \<Rightarrow> Some e | None \<Rightarrow> first_error f xs)"

text \<open>
  The body of the innermost loop of \<^verbatim>\<open>validateTargetConfig\<close>. The search through the
  supported deliveries is a test of membership.
\<close>

definition validate_recipient ::
  "DeliveryType list \<Rightarrow> string \<Rightarrow> DeliveryType \<Rightarrow> string \<Rightarrow> valError option" where
  "validate_recipient supportedDeliveries targetName dlvName recipient =
     (let deliverySupported = (dlvName \<in> set supportedDeliveries);
          ts = targetString targetName dlvName recipient
      in if \<not> deliverySupported then Some \<lparr>kind = errKindUnsupportedDelivery, target = ts\<rparr>
         else if dlvName = DeliverySMTP \<and> \<not> MatchString reEmail recipient
         then Some \<lparr>kind = errKindInvalidEmail, target = ts\<rparr>
         else None)"

text \<open>
  \<^verbatim>\<open>func validateTargetConfig(supportedDeliveries []DeliveryType, cnf TargetsConfig) error\<close>,
  with \<open>ks\<close> the order in which the targets are visited; \<^verbatim>\<open>len(cnf.targets)\<close> is the
  number of keys.
\<close>

definition validateTargetConfig ::
  "string list \<Rightarrow> DeliveryType list \<Rightarrow> TargetsConfig \<Rightarrow> valError option" where
  "validateTargetConfig ks supportedDeliveries cnf =
     (if length ks = 0 then Some \<lparr>kind = errKindEmptyTargets, target = []\<rparr>
      else first_error (\<lambda>targetName.
             case targets_of cnf targetName of
               None \<Rightarrow> None
             | Some tg \<Rightarrow>
                 first_error (\<lambda>d.
                   first_error (validate_recipient supportedDeliveries targetName (name d))
                     (recipients d))
                   (deliveries tg)) ks)"


section \<open>The HTTP handler\<close>

text \<open>
  A Go \<^verbatim>\<open>error\<close> value, as far as the code looks into it: it either implements
  \<^verbatim>\<open>net.Error\<close>, and then \<^verbatim>\<open>Temporary()\<close> answers, or it does not.
\<close>

datatype error = NetError (Temporary: bool) string | OtherError string

record Message =
  Subject :: string
  Text :: string

text \<open>
  \<^verbatim>\<open>Sender\<close> is an interface with one method, \<^verbatim>\<open>Send(recipients []string, msg Message) error\<close>.
  The handler only uses the error a call returns, so a sender is the function from the
  arguments of a call to that error. The map of senders holds real senders only; a
  key bound to a nil interface is not modelled.
\<close>

type_synonym Sender = "string list \<Rightarrow> Message \<Rightarrow> error option"

record Handler =
  h_senders :: "DeliveryType \<rightharpoonup> Sender"
  h_targets :: TargetsConfig

text \<open>
  \<^verbatim>\<open>func NewHandler(targets TargetsConfig, senders map[DeliveryType]Sender) (*Handler, error)\<close>.
  \<open>sks\<close> is the order in which the keys of \<open>senders\<close> are visited and \<open>ks\<close> the one in
  which the validation visits the targets. The error returned wraps the validation
  error, which stays its cause; the model returns the cause.
\<close>

definition NewHandler ::
  "string list \<Rightarrow> DeliveryType list \<Rightarrow> TargetsConfig \<Rightarrow> (DeliveryType \<rightharpoonup> Sender) \<Rightarrow> valError + Handler" where
  "NewHandler ks sks tgts senders =
     (let supportedDeliveries = sks in
      case validateTargetConfig ks supportedDeliveries tgts of
        Some err \<Rightarrow> Inl err
      | None \<Rightarrow> Inr \<lparr>h_senders = senders, h_targets = tgts\<rparr>)"

text \<open>
  The request, as far as the handler reads it: the query of the URL (\<^verbatim>\<open>url.Values\<close>, a map
  from a key to its values) and the body, which is either \<^verbatim>\<open>http.NoBody\<close> or a reader
  over some bytes.
\<close>

datatype request_body = NoBody | Body string

record Request =
  query :: "string \<Rightarrow> string list"
  req_body :: request_body

text \<open>\<^verbatim>\<open>url.Values.Get\<close>: the first value of the key, or the empty string.\<close>

definition Get :: "(string \<Rightarrow> string list) \<Rightarrow> string \<Rightarrow> string" where
  "Get vs key = (case vs key of [] \<Rightarrow> [] | v # _ \<Rightarrow> v)"

record Response =
  status :: nat
  resp_body :: string

definition StatusOK :: nat where
  "StatusOK = 200"

definition StatusBadRequest :: nat where
  "StatusBadRequest = 400"

definition newline :: string where
  "newline = [CHR 0x0A]"

text \<open>\<^verbatim>\<open>fmt.Sprintln\<close> of one string.\<close>

definition Sprintln :: "string \<Rightarrow> string" where
  "Sprintln s = s @ newline"

text \<open>
  \<^verbatim>\<open>http.Error(w, msg, code)\<close> writes the status and then the message with
  \<^verbatim>\<open>fmt.Fprintln\<close>.
\<close>

definition http_Error :: "string \<Rightarrow> nat \<Rightarrow> Response" where
  "http_Error msg code = \<lparr>status = code, resp_body = msg @ newline\<rparr>"

text \<open>
  What a run of the handler does: the response, the calls of \<^verbatim>\<open>Send\<close> it has made and
  waited for, and the failures it has logged with \<^verbatim>\<open>log.Infow\<close>. Debug logging is left
  out. A call of \<^verbatim>\<open>Send\<close> on a sender that the map does not hold is a call on a nil
  interface, which panics.
\<close>

record send_call =
  channel :: DeliveryType
  rcpts :: "string list"
  message :: Message

record send_failure =
  failed_delivery :: DeliveryType
  failure :: error
  failed_message :: Message

datatype handler_result =
  Served Response "send_call list" "send_failure list"
| Panicked

text \<open>
  The fan-out at the end of the handler: one goroutine for each delivery, each calling
  \<^verbatim>\<open>Send\<close> once, and \<^verbatim>\<open>wg.Wait()\<close> returning when all have finished. The goroutines
  share nothing but the log, so the model runs them one after the other in the order of
  the deliveries; the lists it returns stand for the calls made, in no particular order
  of time. The result is \<open>None\<close> when a sender is missing.
\<close>

fun fan_out ::
  "(DeliveryType \<rightharpoonup> Sender) \<Rightarrow> delivery list \<Rightarrow> Message \<Rightarrow> (send_call list \<times> send_failure list) option" where
  "fan_out senders [] msg = Some ([], [])"
| "fan_out senders (dlv # dlvs) msg =
     (case senders (name dlv) of
        None \<Rightarrow> None
      | Some sender \<Rightarrow>
          (case fan_out senders dlvs msg of
             None \<Rightarrow> None
           | Some (calls, failures) \<Rightarrow>
               Some (\<lparr>channel = name dlv, rcpts = recipients dlv, message = msg\<rparr> # calls,
                     (case sender (recipients dlv) msg of
                        None \<Rightarrow> failures
                      | Some err \<Rightarrow>
                          \<lparr>failed_delivery = name dlv, failure = err, failed_message = msg\<rparr> # failures))))"

text \<open>
  \<^verbatim>\<open>func newMessageHandler(targetsConfig TargetsConfig, senders map[DeliveryType]Sender) http.HandlerFunc\<close>.
  \<open>json_decode\<close> stands for \<^verbatim>\<open>json.NewDecoder(r.Body).Decode(&msg)\<close> on the bytes of the
  body (\<open>None\<close> when it returns an error) and \<open>quote\<close> for the verb \<^verbatim>\<open>%q\<close>; both belong
  to Go's standard library. A handler that returns without writing responds with status
  200 and an empty body.
\<close>

definition newMessageHandler ::
  "(string \<Rightarrow> Message option) \<Rightarrow> (string \<Rightarrow> string) \<Rightarrow>
   TargetsConfig \<Rightarrow> (DeliveryType \<rightharpoonup> Sender) \<Rightarrow> Request \<Rightarrow> handler_result" where
  "newMessageHandler json_decode quote targetsConfig senders r =
     (let targetName = Get (query r) ''target'' in
      if targetName = []
      then Served (http_Error (Sprintln ''Parameter 'target' is missed'') StatusBadRequest) [] []
      else
        case targets_of targetsConfig targetName of
          None \<Rightarrow> Served (http_Error (''Unknown target '' @ quote targetName) StatusBadRequest) [] []
        | Some tgt \<Rightarrow>
            (case req_body r of
               NoBody \<Rightarrow> Served (http_Error (Sprintln ''No body'') StatusBadRequest) [] []
             | Body bytes \<Rightarrow>
                 (case json_decode bytes of
                    None \<Rightarrow> Served (http_Error (Sprintln ''Invalid body'') StatusBadRequest) [] []
                  | Some msg \<Rightarrow>
                      if Text msg = []
                      then Served (http_Error (Sprintln ''Missing required fields: text'')
                                     StatusBadRequest) [] []
                      else
                        (case fan_out senders (deliveries tgt) msg of
                           None \<Rightarrow> Panicked
                         | Some (calls, failures) \<Rightarrow>
                             Served \<lparr>status = StatusOK, resp_body = []\<rparr> calls failures))))"

text \<open>
  \<^verbatim>\<open>AddRoutes\<close> registers \<^verbatim>\<open>newMessageHandler(srv.targets, srv.senders)\<close>: serving a
  request with a handler made by \<^verbatim>\<open>NewHandler\<close>.
\<close>

definition serve ::
  "(string \<Rightarrow> Message option) \<Rightarrow> (string \<Rightarrow> string) \<Rightarrow> Handler \<Rightarrow> Request \<Rightarrow> handler_result" where
  "serve json_decode quote srv r =
     newMessageHandler json_decode quote (h_targets srv) (h_senders srv) r"

section \<open>Sending by SMTP\<close>

text \<open>Durations are integers (nanoseconds), ports are integers.\<close>

record SMTPConfig =
  Host :: string
  Port :: int
  From :: string
  Retries :: "int list"

text \<open>
  The mail handed to \<^verbatim>\<open>sendfn\<close>, as the library \<^verbatim>\<open>mailyak\<close> holds it: the address of
  the relay, the recipients, the sender address, the subject and the two bodies.
\<close>

record Mail =
  mail_addr :: string
  mail_to :: "string list"
  mail_from :: string
  mail_subject :: string
  mail_plain :: string
  mail_html :: string

text \<open>
  \<^verbatim>\<open>mailyak\<close> is a library outside this repository. Its setters \<^verbatim>\<open>To\<close>, \<^verbatim>\<open>From\<close> and
  \<^verbatim>\<open>Subject\<close> do not store their arguments as they are: they remove line breaks, and
  the subject is encoded when it holds bytes that a header cannot hold. What the three
  setters store for an argument is given by three functions. The bodies
  (\<^verbatim>\<open>Plain().Set\<close>, \<^verbatim>\<open>HTML().Set\<close>) and the address of the relay (\<^verbatim>\<open>mailyak.New\<close>) are
  stored as they are given.
\<close>

record yak_setters =
  yak_To :: "string list \<Rightarrow> string list"
  yak_From :: "string \<Rightarrow> string"
  yak_Subject :: "string \<Rightarrow> string"

text \<open>
  \<^verbatim>\<open>sendfn\<close> talks to the network: it is a function on a state of the world \<open>'w\<close>,
  returning its error and the next state.
\<close>

record 'w SMTPSender = SMTPConfig +
  sendfn :: "Mail \<Rightarrow> 'w \<Rightarrow> error option \<times> 'w"

definition subjectMaxLen :: nat where
  "subjectMaxLen = 78"

text \<open>
  The loop that looks for the subject in the lines of the plain text: \<open>subject\<close> is the
  value of the variable before the loop.
\<close>

fun first_line :: "string \<Rightarrow> string list \<Rightarrow> string" where
  "first_line subject [] = subject"
| "first_line subject (line # lines) = (if line \<noteq> [] then line else first_line subject lines)"

text \<open>The verb \<^verbatim>\<open>%d\<close> of package \<^verbatim>\<open>fmt\<close>: an integer in decimal.\<close>

function show_nat :: "nat \<Rightarrow> string" where
  "show_nat n =
     (if n < 10 then [char_of (48 + n)]
      else show_nat (n div 10) @ [char_of (48 + n mod 10)])"
  by pat_completeness auto
termination
  by (relation "measure id") auto

definition show_int :: "int \<Rightarrow> string" where
  "show_int i = (if i < 0 then ''-'' @ show_nat (nat (- i)) else show_nat (nat i))"

text \<open>The style sheet and the document that \<^verbatim>\<open>Send\<close> puts around the rendered text.\<close>

definition css :: string where
  "css = ''<style>table,th,td{border: 1px solid black;} tr:nth-child(even){background-color: grey;}</style>''"

definition dquote :: string where
  "dquote = [CHR 0x22]"

definition tab :: string where
  "tab = [CHR 0x09]"

definition html_document :: "string \<Rightarrow> string" where
  "html_document md =
     newline @
     ''<!DOCTYPE html PUBLIC '' @ dquote @ ''-//W3C//DTD XHTML 1.0 Transitional//EN'' @ dquote @
       '' '' @ dquote @ ''http://www.w3.org/TR/xhtml1/DTD/xhtml1-transitional.dtd'' @ dquote @ ''>'' @ newline @
     ''<html xmlns='' @ dquote @ ''http://www.w3.org/1999/xhtml'' @ dquote @
       '' xmlns:o='' @ dquote @ ''urn:schemas-microsoft-com:office:office'' @ dquote @ ''>'' @ newline @
     tab @ ''<head>'' @ newline @
     tab @ tab @ ''<title>Message</title>'' @
     css @
     ''</head>'' @ newline @
     tab @ ''<body>'' @
     md @
     ''</body>'' @ newline @
     ''</html>'' @ newline"

text \<open>
  The mail that \<^verbatim>\<open>Send\<close> builds. \<open>markdown\<close> stands for \<^verbatim>\<open>blackfriday.Run\<close> and
  \<open>StripTags\<close> for \<^verbatim>\<open>strip.StripTags\<close>, two libraries outside this repository, and
  \<open>yak\<close> for the setters of \<^verbatim>\<open>mailyak\<close>. A new mail has no sender address; \<^verbatim>\<open>Send\<close>
  sets one when the configuration has one.
\<close>

definition build_mail ::
  "(string \<Rightarrow> string) \<Rightarrow> (string \<Rightarrow> string) \<Rightarrow> yak_setters \<Rightarrow> ('w, 'x) SMTPSender_scheme \<Rightarrow>
   string list \<Rightarrow> Message \<Rightarrow> Mail" where
  "build_mail markdown StripTags yak s rcps msg =
     (let md = markdown (Text msg);
          html = html_document md;
          subject = Subject msg;
          subject =
            (if subject = [] then
               let plainText = StripTags md;
                   subject = first_line subject (Split CHR 0x0A plainText)
               in if length subject > subjectMaxLen then take subjectMaxLen subject else subject
             else subject)
      in \<lparr>mail_addr = Host s @ '':'' @ show_int (Port s),
          mail_to = yak_To yak rcps,
          mail_from = (if From s \<noteq> [] then yak_From yak (From s) else []),
          mail_subject = yak_Subject yak subject,
          mail_plain = Text msg,
          mail_html = html\<rparr>)"

text \<open>
  What \<^verbatim>\<open>Send\<close> does, in order: attempts, each with the mail handed to \<^verbatim>\<open>sendfn\<close> and
  the outcome, and sleeps.
\<close>

datatype event = Attempt Mail "error option" | Sleep int

definition is_temporary :: "error \<Rightarrow> bool" where
  "is_temporary err = (case err of NetError t _ \<Rightarrow> t | OtherError _ \<Rightarrow> False)"

text \<open>
  The retry loop of \<^verbatim>\<open>Send\<close> and the statements after it. \<open>err\<close> is the value of the
  variable \<^verbatim>\<open>err\<close> when the loop reaches the remaining waits and \<open>fn\<close> the function
  \<^verbatim>\<open>s.sendfn\<close>; the result is the error returned, the state of the world and the events.
\<close>

fun retry_loop ::
  "(Mail \<Rightarrow> 'w \<Rightarrow> error option \<times> 'w) \<Rightarrow> Mail \<Rightarrow> int list \<Rightarrow> error option \<Rightarrow> 'w \<Rightarrow>
   error option \<times> 'w \<times> event list" where
  "retry_loop fn mail [] err w = (err, w, [])"
| "retry_loop fn mail (n # ns) err w =
     (case fn mail w of
        (None, w') \<Rightarrow> (None, w', [Attempt mail None])
      | (Some e, w') \<Rightarrow>
          if \<not> is_temporary e then (Some e, w', [Attempt mail (Some e)])
          else (case retry_loop fn mail ns (Some e) w' of
                  (res, w'', evs) \<Rightarrow> (res, w'', Attempt mail (Some e) # Sleep n # evs)))"

text \<open>\<^verbatim>\<open>func (s *SMTPSender) Send(recipients []string, msg Message) error\<close>.\<close>

definition Send ::
  "(string \<Rightarrow> string) \<Rightarrow> (string \<Rightarrow> string) \<Rightarrow> yak_setters \<Rightarrow> ('w, 'x) SMTPSender_scheme \<Rightarrow>
   string list \<Rightarrow> Message \<Rightarrow> 'w \<Rightarrow> error option \<times> 'w \<times> event list" where
  "Send markdown StripTags yak s rcps msg w =
     (let mail = build_mail markdown StripTags yak s rcps msg
      in retry_loop (sendfn s) mail (Retries s) None w)"

text \<open>The number of times \<^verbatim>\<open>sendfn\<close> has been called.\<close>

fun attempts :: "event list \<Rightarrow> nat" where
  "attempts [] = 0"
| "attempts (Attempt _ _ # evs) = Suc (attempts evs)"
| "attempts (Sleep _ # evs) = attempts evs"

text \<open>The mails that \<^verbatim>\<open>sendfn\<close> has been called with, one for each call.\<close>

fun mails_sent :: "event list \<Rightarrow> Mail list" where
  "mails_sent [] = []"
| "mails_sent (Attempt mail _ # evs) = mail # mails_sent evs"
| "mails_sent (Sleep _ # evs) = mails_sent evs"


section \<open>Notions used in the statements\<close>

subsection \<open>Entries of a configuration string\<close>

text \<open>
  An entry is well formed when it splits at the colons into exactly three fields, none
  of them empty. \<open>field i v\<close> is the \<open>i\<close>-th field of the entry \<open>v\<close>.
\<close>

definition well_formed_entry :: "string \<Rightarrow> bool" where
  "well_formed_entry v =
     (case Split CHR '':'' v of [t, c, r] \<Rightarrow> t \<noteq> [] \<and> c \<noteq> [] \<and> r \<noteq> [] | _ \<Rightarrow> False)"

definition field :: "nat \<Rightarrow> string \<Rightarrow> string" where
  "field i v = Split CHR '':'' v ! i"

definition syntax_error :: "string \<Rightarrow> valError" where
  "syntax_error v = \<lparr>kind = errKindInvTargetSyntax, target = v\<rparr>"

subsection \<open>The content of a configuration\<close>

text \<open>
  The triples (target, channel, recipient) that a configuration holds, as a set and, in
  the order in which a visit \<open>ks\<close> of the targets meets them, as a list.
\<close>

definition map_triples :: "(string \<rightharpoonup> target) \<Rightarrow> (string \<times> DeliveryType \<times> string) set" where
  "map_triples m =
     {(t, c, r). \<exists>tg d. m t = Some tg \<and> d \<in> set (deliveries tg) \<and> name d = c \<and> r \<in> set (recipients d)}"

definition triples_of :: "TargetsConfig \<Rightarrow> (string \<times> DeliveryType \<times> string) set" where
  "triples_of cnf = map_triples (targets_of cnf)"

definition list_triples :: "delivery list \<Rightarrow> (DeliveryType \<times> string) set" where
  "list_triples ds = {(c, r). \<exists>d \<in> set ds. name d = c \<and> r \<in> set (recipients d)}"

definition triples_in_order :: "string list \<Rightarrow> TargetsConfig \<Rightarrow> (string \<times> DeliveryType \<times> string) list" where
  "triples_in_order ks cnf =
     concat (map (\<lambda>t.
       case targets_of cnf t of
         None \<Rightarrow> []
       | Some tg \<Rightarrow> concat (map (\<lambda>d. map (\<lambda>r. (t, name d, r)) (recipients d)) (deliveries tg))) ks)"

text \<open>
  The channels of a target, in the order of its deliveries, and the recipients that the
  deliveries of a target for a channel hold.
\<close>

definition map_channels :: "(string \<rightharpoonup> target) \<Rightarrow> string \<Rightarrow> DeliveryType list" where
  "map_channels m t = (case m t of None \<Rightarrow> [] | Some tg \<Rightarrow> map name (deliveries tg))"

definition channels_of :: "TargetsConfig \<Rightarrow> string \<Rightarrow> DeliveryType list" where
  "channels_of cnf t = map_channels (targets_of cnf) t"

definition map_recipients :: "(string \<rightharpoonup> target) \<Rightarrow> string \<Rightarrow> DeliveryType \<Rightarrow> string list" where
  "map_recipients m t c =
     (case m t of None \<Rightarrow> []
      | Some tg \<Rightarrow> concat (map recipients (filter (\<lambda>d. name d = c) (deliveries tg))))"

definition recipients_of :: "TargetsConfig \<Rightarrow> string \<Rightarrow> DeliveryType \<Rightarrow> string list" where
  "recipients_of cnf t c = map_recipients (targets_of cnf) t c"

subsection \<open>Inserting an entry\<close>

text \<open>
  What one iteration of the loop of \<^verbatim>\<open>Decode\<close> does to the deliveries of a target, to
  the map, and what it does for a well-formed entry, written as recursive functions; the
  lemmas below show that \<open>decode_entry\<close> computes them.
\<close>

fun add_recipient :: "DeliveryType \<Rightarrow> string \<Rightarrow> delivery list \<Rightarrow> delivery list" where
  "add_recipient n r [] = [\<lparr>name = n, recipients = [r]\<rparr>]"
| "add_recipient n r (d # ds) =
     (if name d = n then d\<lparr>recipients := recipients d @ [r]\<rparr> # ds else d # add_recipient n r ds)"

definition insert_triple :: "(string \<rightharpoonup> target) \<Rightarrow> string \<Rightarrow> DeliveryType \<Rightarrow> string \<Rightarrow> (string \<rightharpoonup> target)" where
  "insert_triple m t c r =
     m(t \<mapsto> \<lparr>deliveries = add_recipient c r (case m t of None \<Rightarrow> [] | Some tg \<Rightarrow> deliveries tg)\<rparr>)"

definition insert_entry :: "(string \<rightharpoonup> target) \<Rightarrow> string \<Rightarrow> (string \<rightharpoonup> target)" where
  "insert_entry m v = insert_triple m (field 0 v) (field 1 v) (field 2 v)"

subsection \<open>Attempts and their outcomes\<close>

text \<open>
  \<open>mail_sendfn\<close> is the function that each attempt of \<^verbatim>\<open>Send\<close> runs: \<^verbatim>\<open>sendfn\<close> on
  the mail built from the message. \<open>world_after f k w\<close> is the state of the world
  after \<open>k\<close> calls of \<open>f\<close> from the state \<open>w\<close>, and \<open>outcome f w k\<close> what call number
  \<open>k\<close> (counted from 0) returns. An outcome is transient when it is an error and a
  temporary network error.
\<close>

definition mail_sendfn ::
  "(string \<Rightarrow> string) \<Rightarrow> (string \<Rightarrow> string) \<Rightarrow> yak_setters \<Rightarrow> ('w, 'x) SMTPSender_scheme \<Rightarrow>
   string list \<Rightarrow> Message \<Rightarrow> 'w \<Rightarrow> error option \<times> 'w" where
  "mail_sendfn markdown StripTags yak s rcps msg =
     sendfn s (build_mail markdown StripTags yak s rcps msg)"

fun world_after :: "('w \<Rightarrow> error option \<times> 'w) \<Rightarrow> nat \<Rightarrow> 'w \<Rightarrow> 'w" where
  "world_after f 0 w = w"
| "world_after f (Suc k) w = world_after f k (snd (f w))"

definition outcome :: "('w \<Rightarrow> error option \<times> 'w) \<Rightarrow> 'w \<Rightarrow> nat \<Rightarrow> error option" where
  "outcome f w k = fst (f (world_after f k w))"

definition transient :: "error option \<Rightarrow> bool" where
  "transient res = (case res of None \<Rightarrow> False | Some e \<Rightarrow> is_temporary e)"

text \<open>
  The sender of the test \<^verbatim>\<open>TestSMTPSender\<close>: three waits of length zero and a
  \<^verbatim>\<open>sendfn\<close> that returns the errors of a list one after the other, then succeeds.
\<close>

definition test_sendfn :: "Mail \<Rightarrow> error list \<Rightarrow> error option \<times> error list" where
  "test_sendfn mail errs = (case errs of [] \<Rightarrow> (None, []) | err # errs' \<Rightarrow> (Some err, errs'))"

definition test_sender :: "error list SMTPSender" where
  "test_sender = \<lparr>Host = [], Port = 0, From = [], Retries = [0, 0, 0], sendfn = test_sendfn\<rparr>"

definition errNet :: error where
  "errNet = NetError False ''net''"

definition errNetTemp1 :: error where
  "errNetTemp1 = NetError True ''temp1''"

definition errNetTemp2 :: error where
  "errNetTemp2 = NetError True ''temp2''"

subsection \<open>The subject of a mail\<close>

text \<open>The first line that is not empty, or the empty string when there is none.\<close>

definition first_nonempty :: "string list \<Rightarrow> string" where
  "first_nonempty ls = (case filter (\<lambda>l. l \<noteq> []) ls of [] \<Rightarrow> [] | l # _ \<Rightarrow> l)"

text \<open>
  The two libraries at the example of claim C7: \<^verbatim>\<open>blackfriday.Run\<close> renders the text
  \<^verbatim>\<open># Title\nbody\<close> to \<^verbatim>\<open><h1>Title</h1>\n\n<p>body</p>\n\<close>, which \<^verbatim>\<open>strip.StripTags\<close>
  strips to \<^verbatim>\<open>Title\n\nbody\n\<close>. Other texts are left as they are.
\<close>

text \<open>
  The setters of \<^verbatim>\<open>mailyak\<close> on strings made of printable ASCII characters and line
  breaks: they remove every line feed together with a carriage return just before it,
  \<^verbatim>\<open>To\<close> drops an address of which nothing is left, and nothing is encoded.
\<close>

fun remove_line_breaks :: "string \<Rightarrow> string" where
  "remove_line_breaks [] = []"
| "remove_line_breaks [c] = (if c = CHR 0x0A then [] else [c])"
| "remove_line_breaks (c # d # cs) =
     (if c = CHR 0x0A then remove_line_breaks (d # cs)
      else if c = CHR 0x0D \<and> d = CHR 0x0A then remove_line_breaks cs
      else c # remove_line_breaks (d # cs))"

definition plain_yak :: yak_setters where
  "plain_yak =
     \<lparr>yak_To = (\<lambda>addrs. filter (\<lambda>a. a \<noteq> []) (map remove_line_breaks addrs)),
      yak_From = remove_line_breaks,
      yak_Subject = remove_line_breaks\<rparr>"

definition test_markdown :: "string \<Rightarrow> string" where
  "test_markdown text =
     (if text = ''# Title'' @ newline @ ''body''
      then ''<h1>Title</h1>'' @ newline @ newline @ ''<p>body</p>'' @ newline
      else text)"

definition test_StripTags :: "string \<Rightarrow> string" where
  "test_StripTags html =
     (if html = ''<h1>Title</h1>'' @ newline @ newline @ ''<p>body</p>'' @ newline
      then ''Title'' @ newline @ newline @ ''body'' @ newline
      else html)"

subsection \<open>Validation\<close>

text \<open>
  A triple is invalid for a list of supported deliveries when its channel is not in the
  list, or is the SMTP channel while its recipient does not match the pattern of an
  email address; \<open>triple_error\<close> is the error reported for such a triple.
\<close>

definition invalid_triple :: "DeliveryType list \<Rightarrow> string \<times> DeliveryType \<times> string \<Rightarrow> bool" where
  "invalid_triple supported tcr =
     (case tcr of (t, c, r) \<Rightarrow> c \<notin> set supported \<or> (c = DeliverySMTP \<and> \<not> MatchString reEmail r))"

definition triple_error :: "DeliveryType list \<Rightarrow> string \<times> DeliveryType \<times> string \<Rightarrow> valError" where
  "triple_error supported tcr =
     (case tcr of (t, c, r) \<Rightarrow>
        \<lparr>kind = (if c \<notin> set supported then errKindUnsupportedDelivery else errKindInvalidEmail),
         target = t @ '':'' @ c @ '':'' @ r\<rparr>)"

subsection \<open>Configurations that Decode can build\<close>

text \<open>
  A field of an entry that \<^verbatim>\<open>Decode\<close> accepts is not empty and holds neither a colon
  nor a comma. A configuration is valid when all the fields of its triples are such;
  \<open>Decode_valid_config\<close> below shows that \<^verbatim>\<open>Decode\<close>, from the empty configuration,
  builds valid configurations only. A map is populated when no target has the empty
  name and every delivery has a recipient, which also holds of all that \<^verbatim>\<open>Decode\<close>
  builds.
\<close>

definition valid_field :: "string \<Rightarrow> bool" where
  "valid_field x = (x \<noteq> [] \<and> CHR '':'' \<notin> set x \<and> CHR '','' \<notin> set x)"

definition valid_config :: "TargetsConfig \<Rightarrow> bool" where
  "valid_config cnf =
     (\<forall>(t, c, r) \<in> triples_of cnf. valid_field t \<and> valid_field c \<and> valid_field r)"

definition populated :: "(string \<rightharpoonup> target) \<Rightarrow> bool" where
  "populated m =
     (\<forall>t tg. m t = Some tg \<longrightarrow> t \<noteq> [] \<and> (\<forall>d \<in> set (deliveries tg). recipients d \<noteq> []))"

subsection \<open>What the handler is expected to do\<close>

text \<open>
  One call of \<^verbatim>\<open>Send\<close> for each delivery, with its recipients and the message, and one
  logged failure for each call that returned an error.
\<close>

definition expected_calls :: "delivery list \<Rightarrow> Message \<Rightarrow> send_call list" where
  "expected_calls dlvs msg = map (\<lambda>d. \<lparr>channel = name d, rcpts = recipients d, message = msg\<rparr>) dlvs"

definition expected_failures :: "(DeliveryType \<rightharpoonup> Sender) \<Rightarrow> delivery list \<Rightarrow> Message \<Rightarrow> send_failure list" where
  "expected_failures senders dlvs msg =
     concat (map (\<lambda>d.
       case senders (name d) of
         None \<Rightarrow> []
       | Some sender \<Rightarrow>
           (case sender (recipients d) msg of
              None \<Rightarrow> []
            | Some err \<Rightarrow> [\<lparr>failed_delivery = name d, failure = err, failed_message = msg\<rparr>])) dlvs)"

text \<open>The response of a run of the handler, when it has not panicked.\<close>

fun served_response :: "handler_result \<Rightarrow> Response option" where
  "served_response (Served resp calls failures) = Some resp"
| "served_response Panicked = None"

subsection \<open>Values for the examples\<close>

text \<open>
  \<open>plain_quote\<close> is what the verb \<^verbatim>\<open>%q\<close> prints for a string of printable ASCII
  characters other than the double quote and the backslash: the string between double
  quotes; \<open>plain_unquote\<close> removes the quotes. \<open>query_of\<close> makes the values of a query
  from its pairs. \<open>test_json_decode\<close> decodes two bodies, to a message and to a message
  without text, and fails on any other. The remaining values are those of the tests
  \<^verbatim>\<open>TestHandleSendMessage\<close> and \<^verbatim>\<open>TestNewHandler\<close>.
\<close>

definition plain_quote :: "string \<Rightarrow> string" where
  "plain_quote s = CHR 0x22 # s @ [CHR 0x22]"

definition plain_unquote :: "string \<Rightarrow> string" where
  "plain_unquote s = butlast (tl s)"

definition query_of :: "(string \<times> string) list \<Rightarrow> string \<Rightarrow> string list" where
  "query_of ps key = map snd (filter (\<lambda>p. fst p = key) ps)"

definition test_message :: Message where
  "test_message = \<lparr>Subject = ''Test Subject'', Text = ''Test Message''\<rparr>"

definition test_json_decode :: "string \<Rightarrow> Message option" where
  "test_json_decode bytes =
     (if bytes = ''message'' then Some test_message
      else if bytes = ''no text'' then Some \<lparr>Subject = ''Test Subject'', Text = []\<rparr>
      else None)"

definition test_failing_sender :: Sender where
  "test_failing_sender rs msg = Some (OtherError ''Unknown error'')"

definition test_targets :: TargetsConfig where
  "test_targets = fst (Decode empty_config ''test:smtp:email@example.com'')"

definition test_senders :: "DeliveryType \<rightharpoonup> Sender" where
  "test_senders = [DeliverySMTP \<mapsto> test_failing_sender]"

definition test_request :: "string \<Rightarrow> request_body \<Rightarrow> Request" where
  "test_request tgt b = \<lparr>query = query_of [(''target'', tgt)], req_body = b\<rparr>"

definition request_without_target :: Request where
  "request_without_target = \<lparr>query = query_of [], req_body = Body ''message''\<rparr>"

section \<open>Properties of Decode\<close>

lemma Split_not_Nil: "Split c s \<noteq> []"
  by (induction s) (auto split: list.splits)

lemma target_update_eq: "(tg::target)\<lparr>deliveries := ds\<rparr> = \<lparr>deliveries = ds\<rparr>"
  by (cases tg) simp

lemma add_recipient_None:
  "find_delivery n ds = None \<Longrightarrow> add_recipient n r ds = ds @ [\<lparr>name = n, recipients = [r]\<rparr>]"
  by (induction ds) (auto split: option.splits if_splits)

lemma add_recipient_Some:
  "find_delivery n ds = Some i \<Longrightarrow>
   add_recipient n r ds = ds[i := (ds ! i)\<lparr>recipients := recipients (ds ! i) @ [r]\<rparr>]"
  by (induction ds arbitrary: i) (auto split: option.splits if_splits)

lemma decode_entry_eq:
  "decode_entry m v =
    (if well_formed_entry v
     then Inr (m(field 0 v \<mapsto> \<lparr>deliveries = add_recipient (field 1 v) (field 2 v)
            (case m (field 0 v) of None \<Rightarrow> [] | Some t \<Rightarrow> deliveries t)\<rparr>))
     else Inl (syntax_error v))"
proof (cases "well_formed_entry v")
  case False
  then show ?thesis
    by (auto simp: decode_entry_def well_formed_entry_def syntax_error_def Let_def
        split: list.splits)
next
  case True
  then obtain t c r where s: "Split CHR '':'' v = [t, c, r]" and ne: "t \<noteq> []" "c \<noteq> []" "r \<noteq> []"
    by (auto simp: well_formed_entry_def split: list.splits)
  show ?thesis
  proof (cases "m t")
    case None
    with True s ne show ?thesis
      by (simp add: decode_entry_def field_def Let_def)
  next
    case (Some tg)
    have "decode_entry m v = Inr (m(t \<mapsto> \<lparr>deliveries = add_recipient c r (deliveries tg)\<rparr>))"
      by (cases "find_delivery c (deliveries tg)")
         (simp_all add: decode_entry_def s ne Some Let_def add_recipient_None add_recipient_Some
            target_update_eq)
    with True s Some show ?thesis
      by (simp add: field_def)
  qed
qed

lemma decode_entry_wf: "well_formed_entry v \<Longrightarrow> decode_entry m v = Inr (insert_entry m v)"
  by (simp add: decode_entry_eq insert_entry_def insert_triple_def)

lemma decode_entry_bad: "\<not> well_formed_entry v \<Longrightarrow> decode_entry m v = Inl (syntax_error v)"
  by (simp add: decode_entry_eq)

lemma decode_loop_err:
  "snd (decode_loop m vs) = map_option syntax_error (find (\<lambda>v. \<not> well_formed_entry v) vs)"
  by (induction vs arbitrary: m) (simp_all add: decode_entry_wf decode_entry_bad)

lemma decode_loop_wf:
  "\<forall>v \<in> set vs. well_formed_entry v \<Longrightarrow> decode_loop m vs = (foldl insert_entry m vs, None)"
  by (induction vs arbitrary: m) (simp_all add: decode_entry_wf)

lemma decode_loop_bad:
  "\<forall>v \<in> set pre. well_formed_entry v \<Longrightarrow> \<not> well_formed_entry bad \<Longrightarrow>
   decode_loop m (pre @ bad # rest) = (foldl insert_entry m pre, Some (syntax_error bad))"
  by (induction pre arbitrary: m) (simp_all add: decode_entry_wf decode_entry_bad)

lemma list_triples_add:
  "list_triples (add_recipient c r ds) = insert (c, r) (list_triples ds)"
  by (induction ds) (auto simp: list_triples_def)

lemma map_triples_alt:
  "map_triples m = {(t, c, r). \<exists>tg. m t = Some tg \<and> (c, r) \<in> list_triples (deliveries tg)}"
  by (auto simp: map_triples_def list_triples_def)

lemma list_triples_Nil: "list_triples [] = {}"
  by (simp add: list_triples_def)

lemma map_triples_insert:
  "map_triples (insert_triple m t c r) = insert (t, c, r) (map_triples m)"
proof (cases "m t")
  case None
  have "list_triples (add_recipient c r []) = {(c, r)}"
    by (simp only: list_triples_add list_triples_Nil)
  with None show ?thesis
    by (auto simp: map_triples_alt insert_triple_def split: if_splits)
next
  case (Some tg)
  then show ?thesis
    by (auto simp: map_triples_alt insert_triple_def list_triples_add split: if_splits)
qed

lemma map_triples_foldl:
  "map_triples (foldl insert_entry m vs) =
   map_triples m \<union> (\<lambda>v. (field 0 v, field 1 v, field 2 v)) ` set vs"
  by (induction vs arbitrary: m) (auto simp: insert_entry_def map_triples_insert)

lemma add_recipient_names:
  "map name (add_recipient c r ds) = (if c \<in> name ` set ds then map name ds else map name ds @ [c])"
  by (induction ds) auto

lemma filter_name_empty:
  "n \<notin> name ` set ds \<Longrightarrow> filter (\<lambda>d. name d = n) ds = []"
  by (induction ds) auto

lemma add_recipient_rcpts:
  "distinct (map name ds) \<Longrightarrow>
   concat (map recipients (filter (\<lambda>d. name d = c') (add_recipient c r ds))) =
   concat (map recipients (filter (\<lambda>d. name d = c') ds)) @ (if c' = c then [r] else [])"
proof (induction ds)
  case Nil
  then show ?case by simp
next
  case (Cons d ds)
  then show ?case by (auto simp: filter_name_empty)
qed

lemma map_channels_insert:
  "map_channels (insert_triple m t c r) t' =
     (if t' = t \<and> c \<notin> set (map_channels m t) then map_channels m t' @ [c] else map_channels m t')"
  by (auto simp: map_channels_def insert_triple_def add_recipient_names split: option.splits)

lemma map_recipients_insert:
  "distinct (map_channels m t) \<Longrightarrow>
   map_recipients (insert_triple m t c r) t' c' =
   map_recipients m t' c' @ (if t' = t \<and> c' = c then [r] else [])"
  by (auto simp: map_channels_def map_recipients_def insert_triple_def add_recipient_rcpts
      split: option.splits)

lemma foldl_insert_entry:
  "\<forall>t. distinct (map_channels m t) \<Longrightarrow>
   (\<forall>t. distinct (map_channels (foldl insert_entry m vs) t)) \<and>
   (\<forall>t. set (map_channels (foldl insert_entry m vs) t) =
        set (map_channels m t) \<union> field 1 ` {v \<in> set vs. field 0 v = t}) \<and>
   (\<forall>t c. map_recipients (foldl insert_entry m vs) t c =
        map_recipients m t c @ map (field 2) (filter (\<lambda>v. field 0 v = t \<and> field 1 v = c) vs))"
proof (induction vs arbitrary: m)
  case Nil
  then show ?case by simp
next
  case (Cons v vs)
  have d: "\<forall>t. distinct (map_channels (insert_entry m v) t)"
    using Cons.prems by (simp add: insert_entry_def map_channels_insert)
  have r: "map_recipients (insert_entry m v) t c =
        map_recipients m t c @ (if t = field 0 v \<and> c = field 1 v then [field 2 v] else [])" for t c
    using Cons.prems by (simp add: insert_entry_def map_recipients_insert)
  have n: "set (map_channels (insert_entry m v) t) =
        set (map_channels m t) \<union> (if t = field 0 v then {field 1 v} else {})" for t
    by (auto simp add: insert_entry_def map_channels_insert)
  from Cons.IH[OF d] show ?case
    by (auto simp: r n)
qed

lemma Decode_nonempty:
  "s \<noteq> [] \<Longrightarrow>
   Decode cnf s = (cnf\<lparr>targets := Some (fst (decode_loop (targets_of cnf) (Split CHR '','' s)))\<rparr>,
                   snd (decode_loop (targets_of cnf) (Split CHR '','' s)))"
  by (simp add: Decode_def targets_of_def split: prod.splits)

lemma targets_of_update: "targets_of (cnf\<lparr>targets := Some m\<rparr>) = m"
  by (simp add: targets_of_def)

lemma find_None_iff_all: "(find P xs = None) = (\<forall>x \<in> set xs. \<not> P x)"
  by (induction xs) auto

lemma map_channels_empty: "map_channels Map.empty t = []"
  by (simp add: map_channels_def)

lemma map_recipients_empty: "map_recipients Map.empty t c = []"
  by (simp add: map_recipients_def)

text \<open>
  Claim C4. Decoding the empty string succeeds and leaves the empty configuration. For a
  string that is not empty, \<^verbatim>\<open>Decode\<close> succeeds exactly when each of its entries (the
  pieces between the commas) is well formed, and otherwise returns the syntax error that
  carries the first entry that is not. After a successful decoding into the empty
  configuration, the channels of every target are pairwise distinct and are those of
  its entries, and the recipients held for a target and a channel are the third fields
  of the entries with that target and that channel, in the order of the input.
\<close>

theorem Decode_entries:
  "Decode empty_config [] = (empty_config, None) \<and>
   targets_of empty_config = Map.empty \<and>
   (s \<noteq> [] \<longrightarrow>
      snd (Decode cnf s) =
        map_option (\<lambda>v. \<lparr>kind = errKindInvTargetSyntax, target = v\<rparr>)
          (find (\<lambda>v. \<not> well_formed_entry v) (Split CHR '','' s))) \<and>
   (s \<noteq> [] \<longrightarrow>
      (snd (Decode cnf s) = None) = (\<forall>v \<in> set (Split CHR '','' s). well_formed_entry v)) \<and>
   (s \<noteq> [] \<and> snd (Decode empty_config s) = None \<longrightarrow>
      (\<forall>t. distinct (channels_of (fst (Decode empty_config s)) t) \<and>
           set (channels_of (fst (Decode empty_config s)) t) =
             field 1 ` {v \<in> set (Split CHR '','' s). field 0 v = t}) \<and>
      (\<forall>t c. recipients_of (fst (Decode empty_config s)) t c =
           map (field 2) (filter (\<lambda>v. field 0 v = t \<and> field 1 v = c) (Split CHR '','' s))))"
proof -
  have e: "snd (Decode cnf s) =
        map_option (\<lambda>v. \<lparr>kind = errKindInvTargetSyntax, target = v\<rparr>)
          (find (\<lambda>v. \<not> well_formed_entry v) (Split CHR '','' s))" if "s \<noteq> []"
    using that decode_loop_err[of "targets_of cnf" "Split CHR '','' s"]
    by (simp add: Decode_nonempty syntax_error_def[abs_def])
  have i: "(snd (Decode cnf s) = None) = (\<forall>v \<in> set (Split CHR '','' s). well_formed_entry v)"
    if "s \<noteq> []"
    using e[OF that] by (simp add: find_None_iff_all)
  have c: "(\<forall>t. distinct (channels_of (fst (Decode empty_config s)) t) \<and>
           set (channels_of (fst (Decode empty_config s)) t) =
             field 1 ` {v \<in> set (Split CHR '','' s). field 0 v = t}) \<and>
      (\<forall>t c. recipients_of (fst (Decode empty_config s)) t c =
           map (field 2) (filter (\<lambda>v. field 0 v = t \<and> field 1 v = c) (Split CHR '','' s)))"
    if ne: "s \<noteq> []" and ok: "snd (Decode empty_config s) = None"
  proof -
    have te: "targets_of empty_config = Map.empty"
      by (simp add: targets_of_def empty_config_def)
    have wf: "\<forall>v \<in> set (Split CHR '','' s). well_formed_entry v"
      using ok ne e[OF ne] by (simp add: Decode_nonempty te decode_loop_err find_None_iff_all)
    have t: "targets_of (fst (Decode empty_config s)) = foldl insert_entry Map.empty (Split CHR '','' s)"
      using ne by (simp add: Decode_nonempty te decode_loop_wf[OF wf] targets_of_update)
    have d: "\<forall>t. distinct (map_channels Map.empty t)"
      by (simp add: map_channels_empty)
    from foldl_insert_entry[OF d, of "Split CHR '','' s"] show ?thesis
      by (simp add: channels_of_def recipients_of_def t map_channels_empty map_recipients_empty)
  qed
  have z: "Decode empty_config [] = (empty_config, None)"
    by (simp add: Decode_def)
  have te: "targets_of empty_config = Map.empty"
    by (simp add: targets_of_def empty_config_def)
  from z te e i c show ?thesis by blast
qed



theorem Decode_entries_witness:
  "snd (Decode empty_config ''t:smtp:a,u:sms:c,t:smtp:b'') = None \<and>
   recipients_of (fst (Decode empty_config ''t:smtp:a,u:sms:c,t:smtp:b'')) ''t'' ''smtp'' = [''a'', ''b''] \<and>
   channels_of (fst (Decode empty_config ''t:smtp:a,u:sms:c,t:smtp:b'')) ''t'' = [''smtp''] \<and>
   snd (Decode empty_config ''t:smtp:a,t:smtp,u::c'') =
     Some \<lparr>kind = errKindInvTargetSyntax, target = ''t:smtp''\<rparr>"
proof -
  have ok: "snd (Decode empty_config ''t:smtp:a,u:sms:c,t:smtp:b'') = None"
    by code_simp
  have ch: "channels_of (fst (Decode empty_config ''t:smtp:a,u:sms:c,t:smtp:b'')) ''t'' = [''smtp'']"
    by code_simp
  from Decode_entries[of "''t:smtp:a,u:sms:c,t:smtp:b''" empty_config] ok
  have "recipients_of (fst (Decode empty_config ''t:smtp:a,u:sms:c,t:smtp:b'')) ''t'' ''smtp'' =
       map (field 2) (filter (\<lambda>v. field 0 v = ''t'' \<and> field 1 v = ''smtp'')
          (Split CHR '','' ''t:smtp:a,u:sms:c,t:smtp:b''))"
    by simp
  also have "\<dots> = [''a'', ''b'']"
    by code_simp
  finally have r: "recipients_of (fst (Decode empty_config ''t:smtp:a,u:sms:c,t:smtp:b'')) ''t'' ''smtp'' = [''a'', ''b'']" .
  from Decode_entries[of "''t:smtp:a,t:smtp,u::c''" empty_config]
  have "snd (Decode empty_config ''t:smtp:a,t:smtp,u::c'') =
        map_option (\<lambda>v. \<lparr>kind = errKindInvTargetSyntax, target = v\<rparr>)
          (find (\<lambda>v. \<not> well_formed_entry v) (Split CHR '','' ''t:smtp:a,t:smtp,u::c''))"
    by simp
  also have "\<dots> = Some \<lparr>kind = errKindInvTargetSyntax, target = ''t:smtp''\<rparr>"
    by code_simp
  finally show ?thesis using ok r ch by simp
qed

text \<open>
  Claim C10. When the entries of a non-empty input start with well-formed entries
  followed by one that is not, \<^verbatim>\<open>Decode\<close> returns the syntax error for that entry and
  leaves in the receiver, beside what it held before, the triples of all the entries
  that precede it: nothing is rolled back.
\<close>

theorem Decode_not_atomic:
  assumes "s \<noteq> []"
    and "Split CHR '','' s = pre @ bad # rest"
    and "\<forall>v \<in> set pre. well_formed_entry v"
    and "\<not> well_formed_entry bad"
  shows "snd (Decode cnf s) = Some \<lparr>kind = errKindInvTargetSyntax, target = bad\<rparr> \<and>
         triples_of (fst (Decode cnf s)) =
           triples_of cnf \<union> (\<lambda>v. (field 0 v, field 1 v, field 2 v)) ` set pre"
  using assms
  by (simp add: Decode_nonempty decode_loop_bad syntax_error_def triples_of_def
      targets_of_update map_triples_foldl)

theorem Decode_not_atomic_witness:
  "snd (Decode empty_config ''a:smtp:x,bad,b:sms:y'') =
     Some \<lparr>kind = errKindInvTargetSyntax, target = ''bad''\<rparr> \<and>
   (''a'', ''smtp'', ''x'') \<in> triples_of (fst (Decode empty_config ''a:smtp:x,bad,b:sms:y''))"
proof -
  have 1: "''a:smtp:x,bad,b:sms:y'' \<noteq> []" by simp
  have 2: "Split CHR '','' ''a:smtp:x,bad,b:sms:y'' = [''a:smtp:x''] @ ''bad'' # [''b:sms:y'']"
    by simp
  have 3: "\<forall>v \<in> set [''a:smtp:x'']. well_formed_entry v"
    by (simp add: well_formed_entry_def)
  have 4: "\<not> well_formed_entry ''bad''"
    by (simp add: well_formed_entry_def)
  have 5: "(field 0 ''a:smtp:x'', field 1 ''a:smtp:x'', field 2 ''a:smtp:x'') = (''a'', ''smtp'', ''x'')"
    by (simp add: field_def)
  from Decode_not_atomic[OF 1 2 3 4, of empty_config] 5 show ?thesis
    by simp
qed

section \<open>Invariants of Decode\<close>

lemma Split_pieces: "x \<in> set (Split c s) \<Longrightarrow> c \<notin> set x \<and> set x \<subseteq> set s"
proof (induction s arbitrary: x)
  case Nil
  then show ?case by simp
next
  case (Cons a s)
  show ?case
  proof (cases "a = c")
    case True
    with Cons show ?thesis by auto
  next
    case False
    obtain w ws where sp: "Split c s = w # ws"
      using Split_not_Nil[of c s] by (cases "Split c s") auto
    with Cons.prems False have "x = a # w \<or> x \<in> set ws" by auto
    with Cons.IH[of w] Cons.IH[of x] sp False show ?thesis by auto
  qed
qed

lemma well_formed_fields:
  assumes "well_formed_entry v" and "CHR '','' \<notin> set v"
  shows "valid_field (field 0 v)" and "valid_field (field 1 v)" and "valid_field (field 2 v)"
proof -
  from assms(1) obtain t c r where s: "Split CHR '':'' v = [t, c, r]" and ne: "t \<noteq> []" "c \<noteq> []" "r \<noteq> []"
    by (auto simp: well_formed_entry_def split: list.splits)
  have "CHR '':'' \<notin> set x \<and> set x \<subseteq> set v" if "x \<in> set [t, c, r]" for x
    using Split_pieces[of x "CHR '':''" v] that s by simp
  with assms(2) ne have "valid_field t" "valid_field c" "valid_field r"
    by (auto simp: valid_field_def)
  with s show "valid_field (field 0 v)" and "valid_field (field 1 v)" and "valid_field (field 2 v)"
    by (simp_all add: field_def)
qed

lemma decode_loop_fst:
  "fst (decode_loop m vs) = foldl insert_entry m (takeWhile well_formed_entry vs)"
  by (induction vs arbitrary: m) (simp_all add: decode_entry_wf decode_entry_bad)

lemma Decode_triples:
  "triples_of (fst (Decode cnf s)) \<subseteq>
   triples_of cnf \<union>
     (\<lambda>v. (field 0 v, field 1 v, field 2 v)) ` {v \<in> set (Split CHR '','' s). well_formed_entry v}"
proof (cases "s = []")
  case True
  then show ?thesis by (simp add: Decode_def)
next
  case False
  have "set (takeWhile well_formed_entry vs) \<subseteq> {v \<in> set vs. well_formed_entry v}" for vs
    by (auto dest: set_takeWhileD)
  with False show ?thesis
    by (auto simp: Decode_nonempty decode_loop_fst triples_of_def targets_of_update map_triples_foldl)
qed

lemma Decode_valid_config:
  assumes "valid_config cnf"
  shows "valid_config (fst (Decode cnf s))"
proof -
  have "valid_field (field 0 v) \<and> valid_field (field 1 v) \<and> valid_field (field 2 v)"
    if "v \<in> set (Split CHR '','' s)" "well_formed_entry v" for v
    using that Split_pieces[of v "CHR '',''" s] well_formed_fields[of v] by simp
  with assms Decode_triples[of cnf s] show ?thesis
    by (fastforce simp: valid_config_def)
qed

lemma valid_config_empty: "valid_config empty_config"
  by (simp add: valid_config_def triples_of_def map_triples_def targets_of_def empty_config_def)

lemma add_recipient_populated:
  "\<forall>d \<in> set ds. recipients d \<noteq> [] \<Longrightarrow> \<forall>d \<in> set (add_recipient c r ds). recipients d \<noteq> []"
  by (induction ds) auto

lemma populatedD:
  "populated m \<Longrightarrow> m t = Some tg \<Longrightarrow> d \<in> set (deliveries tg) \<Longrightarrow> recipients d \<noteq> []"
  unfolding populated_def by blast

lemma insert_triple_populated:
  assumes "populated m" and "t \<noteq> []"
  shows "populated (insert_triple m t c r)"
proof -
  have "\<forall>d \<in> set (case m t of None \<Rightarrow> [] | Some tg \<Rightarrow> deliveries tg). recipients d \<noteq> []"
    using populatedD[OF assms(1)] by (cases "m t") auto
  then have "\<forall>d \<in> set (add_recipient c r (case m t of None \<Rightarrow> [] | Some tg \<Rightarrow> deliveries tg)).
      recipients d \<noteq> []"
    by (rule add_recipient_populated)
  with assms show ?thesis
    by (simp add: populated_def insert_triple_def)
qed

lemma foldl_populated:
  "populated m \<Longrightarrow> \<forall>v \<in> set vs. well_formed_entry v \<Longrightarrow> populated (foldl insert_entry m vs)"
proof (induction vs arbitrary: m)
  case Nil
  then show ?case by simp
next
  case (Cons v vs)
  from Cons.prems(2) have "field 0 v \<noteq> []"
    by (auto simp: well_formed_entry_def field_def split: list.splits)
  with Cons show ?case
    by (simp add: insert_entry_def insert_triple_populated)
qed

lemma Decode_populated:
  "populated (targets_of cnf) \<Longrightarrow> populated (targets_of (fst (Decode cnf s)))"
proof (cases "s = []")
  case True
  then show "populated (targets_of cnf) \<Longrightarrow> ?thesis" by (simp add: Decode_def)
next
  case False
  have "\<forall>v \<in> set (takeWhile well_formed_entry vs). well_formed_entry v" for vs
    by (auto dest: set_takeWhileD)
  with False show "populated (targets_of cnf) \<Longrightarrow> ?thesis"
    by (simp add: Decode_nonempty decode_loop_fst targets_of_update foldl_populated)
qed

lemma populated_empty: "populated (targets_of empty_config)"
  by (simp add: populated_def targets_of_def empty_config_def)

section \<open>Properties of Send\<close>

lemma outcome_0: "outcome f w 0 = fst (f w)"
  by (simp add: outcome_def)

lemma outcome_Suc: "outcome f w (Suc k) = outcome f (snd (f w)) k"
  by (simp add: outcome_def)

lemma retry_loop_stop:
  "k < length ns \<Longrightarrow> \<forall>i<k. transient (outcome (sf m) w i) \<Longrightarrow> \<not> transient (outcome (sf m) w k) \<Longrightarrow>
   fst (retry_loop sf m ns err w) = outcome (sf m) w k \<and> attempts (snd (snd (retry_loop sf m ns err w))) = Suc k"
proof (induction ns arbitrary: k w err)
  case Nil
  then show ?case by simp
next
  case (Cons n ns)
  show ?case
  proof (cases k)
    case 0
    with Cons.prems show ?thesis
      by (auto simp: outcome_0 transient_def split: prod.splits option.splits)
  next
    case (Suc j)
    from Cons.prems Suc have t: "transient (outcome (sf m) w 0)" by simp
    then obtain e w' where fw: "sf m w = (Some e, w')" and te: "is_temporary e"
      by (cases "sf m w") (auto simp: outcome_0 transient_def split: option.splits)
    have "\<forall>i<j. transient (outcome (sf m) w' i)"
    proof (intro allI impI)
      fix i assume "i < j"
      then have "transient (outcome (sf m) w (Suc i))" using Cons.prems(2) Suc by simp
      then show "transient (outcome (sf m) w' i)" using fw by (simp add: outcome_Suc)
    qed
    moreover have "\<not> transient (outcome (sf m) w' j)"
      using Cons.prems(3) Suc fw by (simp add: outcome_Suc)
    moreover have "j < length ns" using Cons.prems(1) Suc by simp
    ultimately have "fst (retry_loop sf m ns (Some e) w') = outcome (sf m) w' j \<and>
        attempts (snd (snd (retry_loop sf m ns (Some e) w'))) = Suc j"
      using Cons.IH[of j w' "Some e"] by simp
    with fw te Suc show ?thesis
      by (auto simp: outcome_Suc split: prod.splits)
  qed
qed

lemma retry_loop_exhaust:
  "\<forall>i<length ns. transient (outcome (sf m) w i) \<Longrightarrow>
   fst (retry_loop sf m ns err w) = (if ns = [] then err else outcome (sf m) w (length ns - 1)) \<and>
   attempts (snd (snd (retry_loop sf m ns err w))) = length ns"
proof (induction ns arbitrary: w err)
  case Nil
  then show ?case by simp
next
  case (Cons n ns)
  from Cons.prems have t: "transient (outcome (sf m) w 0)" by simp
  then obtain e w' where fw: "sf m w = (Some e, w')" and te: "is_temporary e"
    by (cases "sf m w") (auto simp: outcome_0 transient_def split: option.splits)
  have "\<forall>i<length ns. transient (outcome (sf m) w' i)"
  proof (intro allI impI)
    fix i assume "i < length ns"
    then have "transient (outcome (sf m) w (Suc i))" using Cons.prems by simp
    then show "transient (outcome (sf m) w' i)" using fw by (simp add: outcome_Suc)
  qed
  from Cons.IH[OF this, of "Some e"] fw te show ?case
    by (cases ns) (auto simp: outcome_Suc outcome_0 split: prod.splits)
qed

lemma Send_retry_loop:
  "Send markdown StripTags yak s rcps msg w =
   retry_loop (sendfn s) (build_mail markdown StripTags yak s rcps msg) (Retries s) None w"
  by (simp add: Send_def)

lemma mail_sendfn_outcome:
  "outcome (sendfn s (build_mail markdown StripTags yak s rcps msg)) w k =
   outcome (mail_sendfn markdown StripTags yak s rcps msg) w k"
  by (simp add: mail_sendfn_def)

text \<open>
  Claim C2. \<^verbatim>\<open>Send\<close> with a retry-wait sequence that is not empty, of length \<open>n\<close>.
  When the attempts before attempt \<open>k < n\<close> fail with temporary network errors and
  attempt \<open>k\<close> fails with an error \<open>e\<close> that is not one, \<^verbatim>\<open>Send\<close> returns \<open>e\<close> after
  \<open>k + 1\<close> attempts. When all of the first \<open>n\<close> attempts fail with temporary network
  errors, \<^verbatim>\<open>Send\<close> makes \<open>n\<close> attempts and returns the error of the last. When the
  attempts before attempt \<open>k < n\<close> fail with temporary network errors and attempt \<open>k\<close>
  succeeds, \<^verbatim>\<open>Send\<close> returns no error after \<open>k + 1\<close> attempts.
\<close>

theorem Send_retries:
  assumes "Retries s \<noteq> []"
  shows
   "(k < length (Retries s) \<and>
     (\<forall>i<k. transient (outcome (mail_sendfn markdown StripTags yak s rcps msg) w i)) \<and>
     outcome (mail_sendfn markdown StripTags yak s rcps msg) w k = Some e \<and> \<not> is_temporary e \<longrightarrow>
       fst (Send markdown StripTags yak s rcps msg w) = Some e \<and>
       attempts (snd (snd (Send markdown StripTags yak s rcps msg w))) = Suc k) \<and>
    ((\<forall>i<length (Retries s). transient (outcome (mail_sendfn markdown StripTags yak s rcps msg) w i)) \<longrightarrow>
       fst (Send markdown StripTags yak s rcps msg w) =
         outcome (mail_sendfn markdown StripTags yak s rcps msg) w (length (Retries s) - 1) \<and>
       attempts (snd (snd (Send markdown StripTags yak s rcps msg w))) = length (Retries s)) \<and>
    (k < length (Retries s) \<and>
     (\<forall>i<k. transient (outcome (mail_sendfn markdown StripTags yak s rcps msg) w i)) \<and>
     outcome (mail_sendfn markdown StripTags yak s rcps msg) w k = None \<longrightarrow>
       fst (Send markdown StripTags yak s rcps msg w) = None \<and>
       attempts (snd (snd (Send markdown StripTags yak s rcps msg w))) = Suc k)"
proof (intro conjI impI)
  let ?f = "mail_sendfn markdown StripTags yak s rcps msg"
  {
    assume h: "k < length (Retries s) \<and> (\<forall>i<k. transient (outcome ?f w i)) \<and>
      outcome ?f w k = Some e \<and> \<not> is_temporary e"
    then have "\<not> transient (outcome ?f w k)" by (simp add: transient_def)
    with h retry_loop_stop[of k "Retries s" "sendfn s" "build_mail markdown StripTags yak s rcps msg" w None]
    show "fst (Send markdown StripTags yak s rcps msg w) = Some e"
      and "attempts (snd (snd (Send markdown StripTags yak s rcps msg w))) = Suc k"
      by (simp_all add: Send_retry_loop mail_sendfn_outcome)
  }
  {
    assume h: "\<forall>i<length (Retries s). transient (outcome ?f w i)"
    with assms retry_loop_exhaust[of "Retries s" "sendfn s" "build_mail markdown StripTags yak s rcps msg" w None]
    show "fst (Send markdown StripTags yak s rcps msg w) = outcome ?f w (length (Retries s) - 1)"
      and "attempts (snd (snd (Send markdown StripTags yak s rcps msg w))) = length (Retries s)"
      by (simp_all add: Send_retry_loop mail_sendfn_outcome)
  }
  {
    assume h: "k < length (Retries s) \<and> (\<forall>i<k. transient (outcome ?f w i)) \<and>
      outcome ?f w k = None"
    then have "\<not> transient (outcome ?f w k)" by (simp add: transient_def)
    with h retry_loop_stop[of k "Retries s" "sendfn s" "build_mail markdown StripTags yak s rcps msg" w None]
    show "fst (Send markdown StripTags yak s rcps msg w) = None"
      and "attempts (snd (snd (Send markdown StripTags yak s rcps msg w))) = Suc k"
      by (simp_all add: Send_retry_loop mail_sendfn_outcome)
  }
qed

lemma test_outcomes:
  "outcome (mail_sendfn md st yak test_sender rcps msg) (e # es) 0 = Some e"
  "outcome (mail_sendfn md st yak test_sender rcps msg) [] k = None"
  "outcome (mail_sendfn md st yak test_sender rcps msg) (e # es) (Suc k) =
   outcome (mail_sendfn md st yak test_sender rcps msg) es k"
proof -
  show "outcome (mail_sendfn md st yak test_sender rcps msg) (e # es) 0 = Some e"
    by (simp add: outcome_def mail_sendfn_def test_sender_def test_sendfn_def)
  show "outcome (mail_sendfn md st yak test_sender rcps msg) [] k = None"
    by (induction k) (simp_all add: outcome_def mail_sendfn_def test_sender_def test_sendfn_def)
  show "outcome (mail_sendfn md st yak test_sender rcps msg) (e # es) (Suc k) =
   outcome (mail_sendfn md st yak test_sender rcps msg) es k"
    by (simp add: outcome_def mail_sendfn_def test_sender_def test_sendfn_def)
qed

theorem Send_retries_witness:
  "fst (Send id id plain_yak test_sender [''email@example.com''] \<lparr>Subject = [], Text = []\<rparr>
         [errNetTemp1, errNetTemp2]) = None \<and>
   attempts (snd (snd (Send id id plain_yak test_sender [''email@example.com'']
         \<lparr>Subject = [], Text = []\<rparr> [errNetTemp1, errNetTemp2]))) = 3 \<and>
   fst (Send id id plain_yak test_sender [''email@example.com''] \<lparr>Subject = [], Text = []\<rparr>
         [errNet, errNetTemp2]) = Some errNet \<and>
   attempts (snd (snd (Send id id plain_yak test_sender [''email@example.com'']
         \<lparr>Subject = [], Text = []\<rparr> [errNet, errNetTemp2]))) = 1 \<and>
   fst (Send id id plain_yak test_sender [''email@example.com''] \<lparr>Subject = [], Text = []\<rparr>
         [errNetTemp1, errNetTemp2, errNetTemp1]) = Some errNetTemp1 \<and>
   attempts (snd (snd (Send id id plain_yak test_sender [''email@example.com'']
         \<lparr>Subject = [], Text = []\<rparr> [errNetTemp1, errNetTemp2, errNetTemp1]))) = 3"
proof -
  have r: "Retries test_sender \<noteq> []" "length (Retries test_sender) = 3"
    by (simp_all add: test_sender_def)
  have t: "transient (Some errNetTemp1)" "transient (Some errNetTemp2)" "\<not> is_temporary errNet"
    by (simp_all add: transient_def is_temporary_def errNetTemp1_def errNetTemp2_def errNet_def)
  have a: "(\<forall>i<3. P i) = (P 0 \<and> P (Suc 0) \<and> P (Suc (Suc 0)))"
          "(\<forall>i<Suc (Suc 0). P i) = (P 0 \<and> P (Suc 0))" for P
    by (auto simp: numeral_3_eq_3 less_Suc_eq)
  from Send_retries[OF r(1), where k = "Suc (Suc 0)" and markdown = id and StripTags = id
      and yak = plain_yak and rcps = "[''email@example.com'']"
      and msg = "\<lparr>Subject = [], Text = []\<rparr>" and w = "[errNetTemp1, errNetTemp2]" and e = errNet]
  have 1: "fst (Send id id plain_yak test_sender [''email@example.com''] \<lparr>Subject = [], Text = []\<rparr>
         [errNetTemp1, errNetTemp2]) = None \<and>
   attempts (snd (snd (Send id id plain_yak test_sender [''email@example.com'']
         \<lparr>Subject = [], Text = []\<rparr> [errNetTemp1, errNetTemp2]))) = 3"
    by (simp add: r t a test_outcomes numeral_2_eq_2)
  from Send_retries[OF r(1), where k = 0 and markdown = id and StripTags = id
      and yak = plain_yak and rcps = "[''email@example.com'']"
      and msg = "\<lparr>Subject = [], Text = []\<rparr>" and w = "[errNet, errNetTemp2]" and e = errNet]
  have 2: "fst (Send id id plain_yak test_sender [''email@example.com''] \<lparr>Subject = [], Text = []\<rparr>
         [errNet, errNetTemp2]) = Some errNet \<and>
   attempts (snd (snd (Send id id plain_yak test_sender [''email@example.com'']
         \<lparr>Subject = [], Text = []\<rparr> [errNet, errNetTemp2]))) = 1"
    by (simp add: r t a test_outcomes numeral_2_eq_2)
  from Send_retries[OF r(1), where k = 0 and markdown = id and StripTags = id
      and yak = plain_yak and rcps = "[''email@example.com'']"
      and msg = "\<lparr>Subject = [], Text = []\<rparr>" and w = "[errNetTemp1, errNetTemp2, errNetTemp1]" and e = errNet]
  have 3: "fst (Send id id plain_yak test_sender [''email@example.com''] \<lparr>Subject = [], Text = []\<rparr>
         [errNetTemp1, errNetTemp2, errNetTemp1]) = Some errNetTemp1 \<and>
   attempts (snd (snd (Send id id plain_yak test_sender [''email@example.com'']
         \<lparr>Subject = [], Text = []\<rparr> [errNetTemp1, errNetTemp2, errNetTemp1]))) = 3"
    by (simp add: r t a test_outcomes numeral_2_eq_2)
  from 1 2 3 show ?thesis by simp
qed

text \<open>
  Claim C3. With an empty retry-wait sequence the loop of \<^verbatim>\<open>Send\<close> has no
  iteration: \<^verbatim>\<open>Send\<close> never calls \<^verbatim>\<open>sendfn\<close>, the world is as before, and no error is
  returned. The claim says one attempt is made.
\<close>

theorem Send_no_retries:
  "Send markdown StripTags yak (s\<lparr>Retries := []\<rparr>) rcps msg w = (None, w, [])"
  by (simp add: Send_def)

theorem Send_no_retries_witness:
  "Send test_markdown test_StripTags plain_yak (test_sender\<lparr>Retries := []\<rparr>)
     [''email@example.com''] test_message [errNet] = (None, [errNet], []) \<and>
   attempts (snd (snd (Send test_markdown test_StripTags plain_yak (test_sender\<lparr>Retries := []\<rparr>)
     [''email@example.com''] test_message [errNet]))) = 0"
  using Send_no_retries[where markdown = test_markdown and StripTags = test_StripTags
      and yak = plain_yak and s = test_sender and rcps = "[''email@example.com'']"
      and msg = test_message and w = "[errNet]"]
  by simp

lemma first_line_filter: "first_line [] ls = first_nonempty ls"
  by (induction ls) (simp_all add: first_nonempty_def)

lemma build_mail_subject:
  "mail_subject (build_mail markdown StripTags yak s rcps msg) =
     yak_Subject yak
       (if Subject msg \<noteq> [] then Subject msg
        else take 78 (first_nonempty (Split CHR 0x0A (StripTags (markdown (Text msg))))))"
  by (simp add: build_mail_def Let_def first_line_filter subjectMaxLen_def)

lemma retry_loop_mails:
  "mails_sent (snd (snd (retry_loop sf m ns err w))) =
   replicate (attempts (snd (snd (retry_loop sf m ns err w)))) m"
proof (induction ns arbitrary: err w)
  case Nil
  show ?case by simp
next
  case (Cons n ns)
  obtain r w' where f: "sf m w = (r, w')" by (cases "sf m w")
  show ?case
  proof (cases r)
    case None
    with f show ?thesis by simp
  next
    case (Some e)
    obtain res w'' evs where l: "retry_loop sf m ns (Some e) w' = (res, w'', evs)"
      by (cases "retry_loop sf m ns (Some e) w'")
    with Cons.IH[of "Some e" w'] have "mails_sent evs = replicate (attempts evs) m"
      by simp
    with f Some l show ?thesis by simp
  qed
qed

lemma retry_loop_attempts_pos:
  "ns \<noteq> [] \<Longrightarrow> 0 < attempts (snd (snd (retry_loop sf m ns err w)))"
  by (cases ns) (auto split: prod.splits option.splits)

text \<open>
  Claim C7, amended. Every mail that \<^verbatim>\<open>Send\<close> hands to \<^verbatim>\<open>sendfn\<close> is the mail built from
  the message, and there is at least one when the retry-wait sequence is not empty. Its
  subject is what the setter \<^verbatim>\<open>Subject\<close> of the mail library stores for the string that
  \<^verbatim>\<open>Send\<close> passes to it. That string is the subject of the message, as it is, when that
  is not empty. Otherwise it is the first 78 bytes of the first non-empty line of the
  text rendered to HTML and stripped of its tags, so at most 78 bytes long. For the text
  \<^verbatim>\<open># Title\nbody\<close>, which the two libraries render and strip to \<^verbatim>\<open>Title\n\nbody\n\<close>, and
  a setter that stores \<^verbatim>\<open>Title\<close> as it is, the subject is \<^verbatim>\<open>Title\<close>.
\<close>

theorem Send_subject:
  "mails_sent (snd (snd (Send markdown StripTags yak s rcps msg w))) =
     replicate (attempts (snd (snd (Send markdown StripTags yak s rcps msg w))))
       (build_mail markdown StripTags yak s rcps msg) \<and>
   (Retries s \<noteq> [] \<longrightarrow> 0 < attempts (snd (snd (Send markdown StripTags yak s rcps msg w)))) \<and>
   (Subject msg \<noteq> [] \<longrightarrow>
      mail_subject (build_mail markdown StripTags yak s rcps msg) = yak_Subject yak (Subject msg)) \<and>
   (Subject msg = [] \<longrightarrow>
      mail_subject (build_mail markdown StripTags yak s rcps msg) =
        yak_Subject yak
          (take 78 (first_nonempty (Split CHR 0x0A (StripTags (markdown (Text msg)))))) \<and>
      length (take 78 (first_nonempty (Split CHR 0x0A (StripTags (markdown (Text msg)))))) \<le> 78) \<and>
   (Subject msg = [] \<and> Text msg = ''# Title'' @ newline @ ''body'' \<and>
    StripTags (markdown (''# Title'' @ newline @ ''body'')) =
      ''Title'' @ newline @ newline @ ''body'' @ newline \<and>
    yak_Subject yak ''Title'' = ''Title'' \<longrightarrow>
      mail_subject (build_mail markdown StripTags yak s rcps msg) = ''Title'')"
proof (intro conjI impI)
  show "mails_sent (snd (snd (Send markdown StripTags yak s rcps msg w))) =
     replicate (attempts (snd (snd (Send markdown StripTags yak s rcps msg w))))
       (build_mail markdown StripTags yak s rcps msg)"
    by (simp add: Send_retry_loop retry_loop_mails)
next
  assume "Retries s \<noteq> []"
  then show "0 < attempts (snd (snd (Send markdown StripTags yak s rcps msg w)))"
    by (simp add: Send_retry_loop retry_loop_attempts_pos)
next
  assume "Subject msg \<noteq> []"
  then show "mail_subject (build_mail markdown StripTags yak s rcps msg) = yak_Subject yak (Subject msg)"
    by (simp add: build_mail_subject)
next
  assume "Subject msg = []"
  then show "mail_subject (build_mail markdown StripTags yak s rcps msg) =
        yak_Subject yak
          (take 78 (first_nonempty (Split CHR 0x0A (StripTags (markdown (Text msg))))))"
    by (simp add: build_mail_subject)
next
  show "length (take 78 (first_nonempty (Split CHR 0x0A (StripTags (markdown (Text msg)))))) \<le> 78"
    by simp
next
  assume "Subject msg = [] \<and> Text msg = ''# Title'' @ newline @ ''body'' \<and>
    StripTags (markdown (''# Title'' @ newline @ ''body'')) =
      ''Title'' @ newline @ newline @ ''body'' @ newline \<and>
    yak_Subject yak ''Title'' = ''Title''"
  then show "mail_subject (build_mail markdown StripTags yak s rcps msg) = ''Title''"
    by (simp add: build_mail_subject first_nonempty_def newline_def)
qed

theorem Send_subject_witness:
  "map mail_subject (mails_sent (snd (snd (Send test_markdown test_StripTags plain_yak test_sender
       [''email@example.com''] \<lparr>Subject = [], Text = ''# Title'' @ newline @ ''body''\<rparr>
       [errNetTemp1])))) = [''Title'', ''Title''] \<and>
   map mail_subject (mails_sent (snd (snd (Send test_markdown test_StripTags plain_yak test_sender
       [''email@example.com''] \<lparr>Subject = ''Explicit'', Text = ''# Title'' @ newline @ ''body''\<rparr>
       [])))) = [''Explicit'']"
proof -
  let ?m1 = "\<lparr>Subject = [], Text = ''# Title'' @ newline @ ''body''\<rparr>"
  let ?m2 = "\<lparr>Subject = ''Explicit'', Text = ''# Title'' @ newline @ ''body''\<rparr>"
  note t1 = Send_subject[where msg = ?m1 and markdown = test_markdown and StripTags = test_StripTags
      and yak = plain_yak and s = test_sender and rcps = "[''email@example.com'']"
      and w = "[errNetTemp1]"]
  note t2 = Send_subject[where msg = ?m2 and markdown = test_markdown and StripTags = test_StripTags
      and yak = plain_yak and s = test_sender and rcps = "[''email@example.com'']"
      and w = "[]"]
  have a1: "attempts (snd (snd (Send test_markdown test_StripTags plain_yak test_sender
       [''email@example.com''] ?m1 [errNetTemp1]))) = 2"
    by (simp add: Send_def Let_def test_sender_def test_sendfn_def is_temporary_def errNetTemp1_def)
  have a2: "attempts (snd (snd (Send test_markdown test_StripTags plain_yak test_sender
       [''email@example.com''] ?m2 []))) = 1"
    by (simp add: Send_def Let_def test_sender_def test_sendfn_def)
  have h: "Subject ?m1 = [] \<and> Text ?m1 = ''# Title'' @ newline @ ''body'' \<and>
      test_StripTags (test_markdown (''# Title'' @ newline @ ''body'')) =
        ''Title'' @ newline @ newline @ ''body'' @ newline \<and>
      yak_Subject plain_yak ''Title'' = ''Title''"
    by (simp add: test_markdown_def test_StripTags_def plain_yak_def)
  have e: "Subject ?m2 \<noteq> []" "yak_Subject plain_yak ''Explicit'' = ''Explicit''"
    by (simp_all add: plain_yak_def)
  from t1 h have s1: "mail_subject (build_mail test_markdown test_StripTags plain_yak test_sender
      [''email@example.com''] ?m1) = ''Title''"
    by blast
  from t2 e have s2: "mail_subject (build_mail test_markdown test_StripTags plain_yak test_sender
      [''email@example.com''] ?m2) = ''Explicit''"
    by simp
  from t1 a1 s1 have 1: "map mail_subject (mails_sent (snd (snd (Send test_markdown test_StripTags
      plain_yak test_sender [''email@example.com''] ?m1 [errNetTemp1])))) = [''Title'', ''Title'']"
    by (simp add: numeral_2_eq_2)
  from t2 a2 s2 have 2: "map mail_subject (mails_sent (snd (snd (Send test_markdown test_StripTags
      plain_yak test_sender [''email@example.com''] ?m2 [])))) = [''Explicit'']"
    by simp
  from 1 2 show ?thesis by simp
qed

text \<open>
  Claim C7 as stated: a subject that is not empty is not always the subject of the email
  as it is. For the subject \<^verbatim>\<open>Hello\nWorld\<close> the mail handed to \<^verbatim>\<open>sendfn\<close> has the subject
  \<^verbatim>\<open>HelloWorld\<close>: the setter of the mail library has removed the line feed.
\<close>

theorem Send_subject_counterexample:
  "map mail_subject (mails_sent (snd (snd (Send test_markdown test_StripTags plain_yak test_sender
       [''email@example.com''] \<lparr>Subject = ''Hello'' @ newline @ ''World'', Text = ''Test Message''\<rparr>
       [])))) = [''HelloWorld''] \<and>
   ''HelloWorld'' \<noteq> ''Hello'' @ newline @ ''World''"
  by (simp add: Send_def build_mail_def test_sender_def test_sendfn_def plain_yak_def newline_def
      Let_def)

section \<open>Matching by derivatives\<close>

lemma nullable_lang: "nullable r \<longleftrightarrow> [] \<in> lang r"
  by (induction r) (auto intro: star_Nil)

lemma lang_alt: "lang (alt r s) = lang r \<union> lang s"
  by (induction r s rule: alt.induct) auto

lemma lang_seq: "lang (seq r s) = {u @ v | u v. u \<in> lang r \<and> v \<in> lang s}"
  by (induction r s rule: seq.induct) auto

lemma star_Cons_D:
  "x \<in> star A \<Longrightarrow> x = c # w \<Longrightarrow> \<exists>u v. w = u @ v \<and> c # u \<in> A \<and> v \<in> star A"
proof (induction arbitrary: w rule: star.induct)
  case star_Nil
  then show ?case by simp
next
  case (star_step u v)
  show ?case
  proof (cases u)
    case Nil
    with star_step show ?thesis by simp
  next
    case (Cons a u')
    with star_step.prems star_step.hyps show ?thesis by auto
  qed
qed

lemma star_Cons:
  "c # w \<in> star A \<longleftrightarrow> (\<exists>u v. w = u @ v \<and> c # u \<in> A \<and> v \<in> star A)"
proof
  assume "c # w \<in> star A"
  then show "\<exists>u v. w = u @ v \<and> c # u \<in> A \<and> v \<in> star A"
    by (rule star_Cons_D) simp
next
  assume "\<exists>u v. w = u @ v \<and> c # u \<in> A \<and> v \<in> star A"
  then obtain u v where "w = u @ v" "c # u \<in> A" "v \<in> star A" by blast
  then show "c # w \<in> star A"
    using star_step[of "c # u" A v] by simp
qed

lemma Cons_in_conc:
  "(\<exists>u v. c # w = u @ v \<and> u \<in> A \<and> v \<in> B) \<longleftrightarrow>
   (\<exists>u v. w = u @ v \<and> c # u \<in> A \<and> v \<in> B) \<or> ([] \<in> A \<and> c # w \<in> B)"
proof
  assume "\<exists>u v. c # w = u @ v \<and> u \<in> A \<and> v \<in> B"
  then obtain u v where uv: "c # w = u @ v" "u \<in> A" "v \<in> B" by blast
  show "(\<exists>u v. w = u @ v \<and> c # u \<in> A \<and> v \<in> B) \<or> ([] \<in> A \<and> c # w \<in> B)"
  proof (cases u)
    case Nil
    with uv show ?thesis by simp
  next
    case (Cons a u')
    with uv have "w = u' @ v" "c # u' \<in> A" by simp_all
    with uv(3) show ?thesis by blast
  qed
next
  assume "(\<exists>u v. w = u @ v \<and> c # u \<in> A \<and> v \<in> B) \<or> ([] \<in> A \<and> c # w \<in> B)"
  then show "\<exists>u v. c # w = u @ v \<and> u \<in> A \<and> v \<in> B"
  proof
    assume "\<exists>u v. w = u @ v \<and> c # u \<in> A \<and> v \<in> B"
    then obtain u v where "w = u @ v" "c # u \<in> A" "v \<in> B" by blast
    then have "c # w = (c # u) @ v \<and> c # u \<in> A \<and> v \<in> B" by simp
    then show ?thesis by blast
  next
    assume "[] \<in> A \<and> c # w \<in> B"
    then have "c # w = [] @ (c # w) \<and> [] \<in> A \<and> c # w \<in> B" by simp
    then show ?thesis by blast
  qed
qed

lemma lang_deriv: "lang (deriv c r) = {w. c # w \<in> lang r}"
proof (induction r)
  case Zero
  show ?case by simp
next
  case One
  show ?case by simp
next
  case (Chars cs)
  show ?case by auto
next
  case AnyChar
  show ?case by auto
next
  case (Alt r s)
  then show ?case by (auto simp: lang_alt)
next
  case (Seq r s)
  show ?case
  proof (rule set_eqI)
    fix w
    show "w \<in> lang (deriv c (Seq r s)) \<longleftrightarrow> w \<in> {w. c # w \<in> lang (Seq r s)}"
      using Cons_in_conc[of c w "lang r" "lang s"]
      by (simp add: lang_alt lang_seq nullable_lang Seq.IH)
  qed
next
  case (Star r)
  show ?case
  proof (rule set_eqI)
    fix w
    show "w \<in> lang (deriv c (Star r)) \<longleftrightarrow> w \<in> {w. c # w \<in> lang (Star r)}"
      by (simp add: lang_seq Star.IH star_Cons)
  qed
qed

lemma lang_derivs: "lang (derivs r s) = {w. s @ w \<in> lang r}"
  by (induction s arbitrary: r) (simp_all add: lang_deriv)

lemma star_any: "w \<in> lang (Star AnyChar)"
proof (induction w)
  case Nil
  show ?case by (simp add: star_Nil)
next
  case (Cons a w)
  have "[a] \<in> lang AnyChar" by simp
  with Cons have "[a] @ w \<in> star (lang AnyChar)"
    by (intro star_step) simp_all
  then show ?case by simp
qed

lemma MatchString_substring:
  "MatchString r s \<longleftrightarrow> (\<exists>u v w. s = u @ v @ w \<and> v \<in> lang r)"
proof -
  have "MatchString r s \<longleftrightarrow> s \<in> lang (Seq (Star AnyChar) (Seq r (Star AnyChar)))"
    by (simp add: MatchString_def nullable_lang lang_derivs)
  also have "\<dots> \<longleftrightarrow> (\<exists>u x. s = u @ x \<and> (\<exists>v w. x = v @ w \<and> v \<in> lang r))"
    using star_any by simp
  also have "\<dots> \<longleftrightarrow> (\<exists>u v w. s = u @ v @ w \<and> v \<in> lang r)"
    by blast
  finally show ?thesis .
qed

section \<open>Properties of validateTargetConfig\<close>

lemma first_error_append:
  "first_error f (xs @ ys) = (case first_error f xs of Some e \<Rightarrow> Some e | None \<Rightarrow> first_error f ys)"
  by (induction xs) (auto split: option.splits)

lemma first_error_concat:
  "first_error f (concat (map g xs)) = first_error (\<lambda>x. first_error f (g x)) xs"
  by (induction xs) (auto simp: first_error_append split: option.splits)

lemma first_error_map: "first_error f (map h xs) = first_error (\<lambda>x. f (h x)) xs"
  by (induction xs) (auto split: option.splits)

lemma validate_triples:
  "ks \<noteq> [] \<Longrightarrow>
   validateTargetConfig ks supported cnf =
     first_error (\<lambda>(t, c, r). validate_recipient supported t c r) (triples_in_order ks cnf)"
proof -
  have "first_error (\<lambda>(t, c, r). validate_recipient supported t c r)
          (case targets_of cnf t of None \<Rightarrow> []
           | Some tg \<Rightarrow> concat (map (\<lambda>d. map (\<lambda>r. (t, name d, r)) (recipients d)) (deliveries tg))) =
        (case targets_of cnf t of None \<Rightarrow> None
         | Some tg \<Rightarrow> first_error (\<lambda>d. first_error (validate_recipient supported t (name d)) (recipients d))
                        (deliveries tg))" for t
    by (simp add: first_error_concat first_error_map split: option.splits)
  then show ?thesis if "ks \<noteq> []"
    using that by (simp add: validateTargetConfig_def triples_in_order_def first_error_concat)
qed

lemma validate_recipient_eq:
  "validate_recipient supported t c r =
     (if invalid_triple supported (t, c, r) then Some (triple_error supported (t, c, r)) else None)"
  by (auto simp: validate_recipient_def invalid_triple_def triple_error_def targetString_def Let_def)

lemma set_target_triples:
  "set (case targets_of cnf t of None \<Rightarrow> []
        | Some tg \<Rightarrow> concat (map (\<lambda>d. map (\<lambda>r. (t, name d, r)) (recipients d)) (deliveries tg))) =
   {x \<in> triples_of cnf. fst x = t}"
proof (cases "targets_of cnf t")
  case None
  then show ?thesis by (auto simp: triples_of_def map_triples_def)
next
  case (Some tg)
  have "set (concat (map (\<lambda>d. map (\<lambda>r. (t, name d, r)) (recipients d)) ds)) =
        {(t', c, r). t' = t \<and> (\<exists>d. d \<in> set ds \<and> name d = c \<and> r \<in> set (recipients d))}"
    for ds :: "delivery list"
    by (induction ds) auto
  with Some show ?thesis
    by (auto simp: triples_of_def map_triples_def)
qed

lemma triples_of_dom: "x \<in> triples_of cnf \<Longrightarrow> fst x \<in> dom (targets_of cnf)"
  by (auto simp: triples_of_def map_triples_def)

lemma set_triples_in_order:
  "set ks = dom (targets_of cnf) \<Longrightarrow> set (triples_in_order ks cnf) = triples_of cnf"
  unfolding triples_in_order_def set_concat set_map image_image set_target_triples
  using triples_of_dom[of _ cnf] by auto

lemma key_order_empty: "key_order m ks \<Longrightarrow> (ks = []) = (m = Map.empty)"
  unfolding key_order_def by (metis dom_eq_empty_conv set_empty)

lemma first_error_if:
  "first_error (\<lambda>x. if P x then Some (g x) else None) xs = map_option g (find P xs)"
  by (induction xs) auto

text \<open>
  Claim C5. Let \<open>ks\<close> be the order in which the targets are visited. Validation
  returns the error for empty targets when the configuration has no target. Otherwise
  it returns the error of the first invalid triple it meets: an unsupported delivery
  when the channel is not among the supported ones, an invalid email when the channel
  is SMTP and the recipient does not match the pattern, both with the text
  \<^verbatim>\<open>target:channel:recipient\<close>; and no error when there is no invalid triple. In
  particular it succeeds on every configuration with a target in which each channel is
  supported and each SMTP recipient matches the pattern. The triples met are those of
  the configuration.
\<close>

theorem validateTargetConfig_spec:
  assumes "key_order (targets_of cnf) ks"
  shows
   "(targets_of cnf = Map.empty \<longrightarrow>
       validateTargetConfig ks supported cnf = Some \<lparr>kind = errKindEmptyTargets, target = []\<rparr>) \<and>
    (targets_of cnf \<noteq> Map.empty \<longrightarrow>
       validateTargetConfig ks supported cnf =
         map_option (triple_error supported) (find (invalid_triple supported) (triples_in_order ks cnf))) \<and>
    (targets_of cnf \<noteq> Map.empty \<and>
     (\<forall>(t, c, r) \<in> triples_of cnf. c \<in> set supported \<and> (c = DeliverySMTP \<longrightarrow> MatchString reEmail r)) \<longrightarrow>
       validateTargetConfig ks supported cnf = None) \<and>
    set (triples_in_order ks cnf) = triples_of cnf"
proof -
  have s: "set (triples_in_order ks cnf) = triples_of cnf"
    using assms by (simp add: set_triples_in_order key_order_def)
  have e: "validateTargetConfig ks supported cnf = Some \<lparr>kind = errKindEmptyTargets, target = []\<rparr>"
    if "targets_of cnf = Map.empty"
    using that key_order_empty[OF assms] by (simp add: validateTargetConfig_def)
  have f: "validateTargetConfig ks supported cnf =
         map_option (triple_error supported) (find (invalid_triple supported) (triples_in_order ks cnf))"
    if "targets_of cnf \<noteq> Map.empty"
  proof -
    have "ks \<noteq> []" using that key_order_empty[OF assms] by simp
    moreover have "(\<lambda>(t, c, r). validate_recipient supported t c r) =
       (\<lambda>tcr. if invalid_triple supported tcr then Some (triple_error supported tcr) else None)"
      by (simp add: fun_eq_iff validate_recipient_eq)
    ultimately show ?thesis
      by (simp add: validate_triples first_error_if)
  qed
  have n: "validateTargetConfig ks supported cnf = None"
    if "targets_of cnf \<noteq> Map.empty"
      and "\<forall>(t, c, r) \<in> triples_of cnf. c \<in> set supported \<and> (c = DeliverySMTP \<longrightarrow> MatchString reEmail r)"
  proof -
    have "\<forall>x \<in> set (triples_in_order ks cnf). \<not> invalid_triple supported x"
      using that(2) s by (auto simp: invalid_triple_def)
    then have "find (invalid_triple supported) (triples_in_order ks cnf) = None"
      by (simp add: find_None_iff_all)
    with f[OF that(1)] show ?thesis by simp
  qed
  show ?thesis
  proof (intro conjI impI)
    assume "targets_of cnf = Map.empty"
    then show "validateTargetConfig ks supported cnf = Some \<lparr>kind = errKindEmptyTargets, target = []\<rparr>"
      by (rule e)
  next
    assume "targets_of cnf \<noteq> Map.empty"
    then show "validateTargetConfig ks supported cnf =
         map_option (triple_error supported) (find (invalid_triple supported) (triples_in_order ks cnf))"
      by (rule f)
  next
    assume "targets_of cnf \<noteq> Map.empty \<and>
     (\<forall>(t, c, r) \<in> triples_of cnf. c \<in> set supported \<and> (c = DeliverySMTP \<longrightarrow> MatchString reEmail r))"
    then show "validateTargetConfig ks supported cnf = None"
      using n by simp
  next
    show "set (triples_in_order ks cnf) = triples_of cnf" by (rule s)
  qed
qed

lemma decoded_targets:
  "targets_of (fst (Decode empty_config ''test:smtp:noemail'')) =
     [''test'' \<mapsto> \<lparr>deliveries = [\<lparr>name = ''smtp'', recipients = [''noemail'']\<rparr>]\<rparr>]"
  "targets_of (fst (Decode empty_config ''test:smtp:email@example.com'')) =
     [''test'' \<mapsto> \<lparr>deliveries = [\<lparr>name = ''smtp'', recipients = [''email@example.com'']\<rparr>]\<rparr>]"
  "targets_of (fst (Decode empty_config ''test:nosmtp:email@example.com'')) =
     [''test'' \<mapsto> \<lparr>deliveries = [\<lparr>name = ''nosmtp'', recipients = [''email@example.com'']\<rparr>]\<rparr>]"
  by (simp_all add: Decode_def decode_entry_def empty_config_def targets_of_def Let_def)

theorem validateTargetConfig_spec_witness:
  "validateTargetConfig [] [DeliverySMTP] (fst (Decode empty_config [])) =
     Some \<lparr>kind = errKindEmptyTargets, target = []\<rparr> \<and>
   validateTargetConfig [''test''] [DeliverySMTP] (fst (Decode empty_config ''test:nosmtp:email@example.com'')) =
     Some \<lparr>kind = errKindUnsupportedDelivery, target = ''test:nosmtp:email@example.com''\<rparr> \<and>
   validateTargetConfig [''test''] [DeliverySMTP] (fst (Decode empty_config ''test:smtp:noemail'')) =
     Some \<lparr>kind = errKindInvalidEmail, target = ''test:smtp:noemail''\<rparr> \<and>
   validateTargetConfig [''test''] [DeliverySMTP] (fst (Decode empty_config ''test:smtp:email@example.com'')) =
     None"
proof -
  have m: "MatchString reEmail ''email@example.com''" "\<not> MatchString reEmail ''noemail''"
    by code_simp+
  have k0: "key_order (targets_of (fst (Decode empty_config []))) []"
    by (simp add: key_order_def Decode_def empty_config_def targets_of_def)
  have k: "key_order (targets_of (fst (Decode empty_config ''test:nosmtp:email@example.com''))) [''test'']"
       "key_order (targets_of (fst (Decode empty_config ''test:smtp:noemail''))) [''test'']"
       "key_order (targets_of (fst (Decode empty_config ''test:smtp:email@example.com''))) [''test'']"
    by (simp_all add: key_order_def decoded_targets)
  have t: "triples_in_order [''test''] (fst (Decode empty_config ''test:nosmtp:email@example.com'')) =
             [(''test'', ''nosmtp'', ''email@example.com'')]"
          "triples_in_order [''test''] (fst (Decode empty_config ''test:smtp:noemail'')) =
             [(''test'', ''smtp'', ''noemail'')]"
          "triples_in_order [''test''] (fst (Decode empty_config ''test:smtp:email@example.com'')) =
             [(''test'', ''smtp'', ''email@example.com'')]"
    by (simp_all add: triples_in_order_def decoded_targets)
  have e: "targets_of (fst (Decode empty_config [])) = Map.empty"
    by (simp add: Decode_def empty_config_def targets_of_def)
  from validateTargetConfig_spec[OF k0, of "[DeliverySMTP]"] e
  have 0: "validateTargetConfig [] [DeliverySMTP] (fst (Decode empty_config [])) =
     Some \<lparr>kind = errKindEmptyTargets, target = []\<rparr>"
    by simp
  from validateTargetConfig_spec[OF k(1), of "[DeliverySMTP]"]
  have 1: "validateTargetConfig [''test''] [DeliverySMTP] (fst (Decode empty_config ''test:nosmtp:email@example.com'')) =
     Some \<lparr>kind = errKindUnsupportedDelivery, target = ''test:nosmtp:email@example.com''\<rparr>"
    by (simp add: decoded_targets t invalid_triple_def triple_error_def DeliverySMTP_def)
  from validateTargetConfig_spec[OF k(2), of "[DeliverySMTP]"]
  have 2: "validateTargetConfig [''test''] [DeliverySMTP] (fst (Decode empty_config ''test:smtp:noemail'')) =
     Some \<lparr>kind = errKindInvalidEmail, target = ''test:smtp:noemail''\<rparr>"
    by (simp add: decoded_targets t invalid_triple_def triple_error_def DeliverySMTP_def m)
  note ok = validateTargetConfig_spec[OF k(3), of "[DeliverySMTP]"]
  from ok have "set (triples_in_order [''test''] (fst (Decode empty_config ''test:smtp:email@example.com''))) =
      triples_of (fst (Decode empty_config ''test:smtp:email@example.com''))"
    by (rule conjunct2[THEN conjunct2, THEN conjunct2])
  then have tr: "triples_of (fst (Decode empty_config ''test:smtp:email@example.com'')) =
      {(''test'', ''smtp'', ''email@example.com'')}"
    by (simp add: t)
  from ok have "targets_of (fst (Decode empty_config ''test:smtp:email@example.com'')) \<noteq> Map.empty \<and>
     (\<forall>(t, c, r) \<in> triples_of (fst (Decode empty_config ''test:smtp:email@example.com'')).
        c \<in> set [DeliverySMTP] \<and> (c = DeliverySMTP \<longrightarrow> MatchString reEmail r)) \<longrightarrow>
       validateTargetConfig [''test''] [DeliverySMTP]
         (fst (Decode empty_config ''test:smtp:email@example.com'')) = None"
    by (rule conjunct2[THEN conjunct2, THEN conjunct1])
  then have 3: "validateTargetConfig [''test''] [DeliverySMTP] (fst (Decode empty_config ''test:smtp:email@example.com'')) =
     None"
    by (simp add: decoded_targets tr DeliverySMTP_def m)
  from 0 1 2 3 show ?thesis by simp
qed

section \<open>Properties of MarshalJSON\<close>

lemma Split_no_sep: "c \<notin> set x \<Longrightarrow> Split c x = [x]"
  by (induction x) auto

lemma Split_append_sep: "c \<notin> set x \<Longrightarrow> Split c (x @ c # ys) = x # Split c ys"
  by (induction x) auto

lemma Split_Join:
  "xs \<noteq> [] \<Longrightarrow> \<forall>x \<in> set xs. c \<notin> set x \<Longrightarrow> Split c (Join xs [c]) = xs"
proof (induction xs "[c]" rule: Join.induct)
  case 1
  then show ?case by simp
next
  case (2 x)
  then show ?case by (simp add: Split_no_sep)
next
  case (3 x y ys)
  then show ?case by (simp add: Split_append_sep)
qed

lemma Split_targetString:
  "valid_field t \<Longrightarrow> valid_field c \<Longrightarrow> valid_field r \<Longrightarrow>
   Split CHR '':'' (targetString t c r) = [t, c, r]"
  by (simp add: targetString_def valid_field_def Split_append_sep Split_no_sep)

lemma targetString_entry:
  assumes "valid_field t" "valid_field c" "valid_field r"
  shows "well_formed_entry (targetString t c r)"
    and "field 0 (targetString t c r) = t"
    and "field 1 (targetString t c r) = c"
    and "field 2 (targetString t c r) = r"
    and "CHR '','' \<notin> set (targetString t c r)"
  using assms Split_targetString[OF assms]
  by (simp_all add: well_formed_entry_def field_def valid_field_def targetString_def)

lemma marshal_entries_triples:
  "marshal_entries ks cnf = map (\<lambda>(t, c, r). targetString t c r) (triples_in_order ks cnf)"
proof -
  have "(case targets_of cnf t of None \<Rightarrow> []
         | Some tg \<Rightarrow> concat (map (\<lambda>d. map (\<lambda>recipient. targetString t (name d) recipient)
                                        (recipients d)) (deliveries tg))) =
        map (\<lambda>(t, c, r). targetString t c r)
          (case targets_of cnf t of None \<Rightarrow> []
           | Some tg \<Rightarrow> concat (map (\<lambda>d. map (\<lambda>r. (t, name d, r)) (recipients d)) (deliveries tg)))"
    for t
    by (simp add: map_concat comp_def split: option.splits)
  then show ?thesis
    by (simp add: marshal_entries_def triples_in_order_def map_concat comp_def)
qed

text \<open>
  Claim C8. For a valid configuration, decoding the unquoted output of \<^verbatim>\<open>MarshalJSON\<close>
  into the empty configuration succeeds and gives a configuration with the same set of
  triples (target, channel, recipient), whatever the order \<open>ks\<close> in which the targets
  are visited.
\<close>

theorem Decode_MarshalJSON:
  assumes "valid_config cnf"
    and "key_order (targets_of cnf) ks"
    and "\<forall>x. unquote (quote x) = x"
  shows "snd (Decode empty_config (unquote (MarshalJSON quote ks cnf))) = None \<and>
         triples_of (fst (Decode empty_config (unquote (MarshalJSON quote ks cnf)))) = triples_of cnf"
proof -
  let ?trs = "triples_in_order ks cnf"
  let ?es = "marshal_entries ks cnf"
  have s: "set ?trs = triples_of cnf"
    using assms(2) by (simp add: set_triples_in_order key_order_def)
  have u: "unquote (MarshalJSON quote ks cnf) = Join ?es '',''"
    using assms(3) by (simp add: MarshalJSON_def)
  have te: "targets_of empty_config = Map.empty" "triples_of empty_config = {}"
    by (simp_all add: targets_of_def empty_config_def triples_of_def map_triples_def)
  show ?thesis
  proof (cases "?trs = []")
    case True
    then have "?es = []" by (simp add: marshal_entries_triples)
    with True s u te show ?thesis by (simp add: Decode_def)
  next
    case False
    have v: "\<forall>x \<in> set ?trs. valid_field (fst x) \<and> valid_field (fst (snd x)) \<and> valid_field (snd (snd x))"
      using assms(1) s by (auto simp: valid_config_def)
    have ne: "?es \<noteq> []" using False by (simp add: marshal_entries_triples)
    have nc: "\<forall>e \<in> set ?es. CHR '','' \<notin> set e"
      using v by (auto simp: marshal_entries_triples targetString_entry)
    have wf: "\<forall>e \<in> set ?es. well_formed_entry e"
      using v by (auto simp: marshal_entries_triples targetString_entry)
    have sp: "Split CHR '','' (Join ?es '','') = ?es"
      using Split_Join[OF ne nc] by simp
    have j: "Join ?es '','' \<noteq> []"
    proof
      assume "Join ?es '','' = []"
      with sp have "?es = [[]]" by simp
      with wf show False by (simp add: well_formed_entry_def)
    qed
    have f: "(\<lambda>v. (field 0 v, field 1 v, field 2 v)) ` set ?es = set ?trs"
    proof -
      have "(field 0 (targetString t c r), field 1 (targetString t c r), field 2 (targetString t c r)) = (t, c, r)"
        if "(t, c, r) \<in> set ?trs" for t c r
      proof -
        from v that have "valid_field t" "valid_field c" "valid_field r" by auto
        then show ?thesis by (simp only: targetString_entry)
      qed
      then show ?thesis
        by (force simp: marshal_entries_triples image_image)
    qed
    from u j sp wf f s te show ?thesis
      by (simp add: Decode_nonempty decode_loop_wf triples_of_def targets_of_update map_triples_foldl)
  qed
qed

theorem Decode_MarshalJSON_witness:
  "plain_unquote (MarshalJSON plain_quote [''b'', ''a''] (fst (Decode empty_config ''a:smtp:x,b:sms:y,a:smtp:z''))) =
     ''b:sms:y,a:smtp:x,a:smtp:z'' \<and>
   snd (Decode empty_config (plain_unquote (MarshalJSON plain_quote [''b'', ''a'']
         (fst (Decode empty_config ''a:smtp:x,b:sms:y,a:smtp:z''))))) = None \<and>
   triples_of (fst (Decode empty_config (plain_unquote (MarshalJSON plain_quote [''b'', ''a'']
         (fst (Decode empty_config ''a:smtp:x,b:sms:y,a:smtp:z'')))))) =
     triples_of (fst (Decode empty_config ''a:smtp:x,b:sms:y,a:smtp:z''))"
proof -
  have t: "targets_of (fst (Decode empty_config ''a:smtp:x,b:sms:y,a:smtp:z'')) =
      [''a'' \<mapsto> \<lparr>deliveries = [\<lparr>name = ''smtp'', recipients = [''x'', ''z'']\<rparr>]\<rparr>,
       ''b'' \<mapsto> \<lparr>deliveries = [\<lparr>name = ''sms'', recipients = [''y'']\<rparr>]\<rparr>]"
    by (simp add: Decode_def decode_entry_def empty_config_def targets_of_def Let_def fun_upd_twist)
  have 1: "valid_config (fst (Decode empty_config ''a:smtp:x,b:sms:y,a:smtp:z''))"
    by (rule Decode_valid_config[OF valid_config_empty])
  have 2: "key_order (targets_of (fst (Decode empty_config ''a:smtp:x,b:sms:y,a:smtp:z''))) [''b'', ''a'']"
    by (auto simp: key_order_def t)
  have 3: "\<forall>x. plain_unquote (plain_quote x) = x"
    by (simp add: plain_unquote_def plain_quote_def)
  have 4: "plain_unquote (MarshalJSON plain_quote [''b'', ''a''] (fst (Decode empty_config ''a:smtp:x,b:sms:y,a:smtp:z''))) =
     ''b:sms:y,a:smtp:x,a:smtp:z''"
    by (simp add: MarshalJSON_def 3 marshal_entries_def t targetString_def)
  from Decode_MarshalJSON[where quote = plain_quote and unquote = plain_unquote, OF 1 2 3] 4
  show ?thesis
    by simp
qed

section \<open>Properties of the handler\<close>

lemma fan_out_all:
  "\<forall>d \<in> set dlvs. senders (name d) \<noteq> None \<Longrightarrow>
   fan_out senders dlvs msg = Some (expected_calls dlvs msg, expected_failures senders dlvs msg)"
  by (induction dlvs) (auto simp: expected_calls_def expected_failures_def split: option.splits)

lemma validate_None_supported:
  assumes "key_order (targets_of cnf) ks" and "validateTargetConfig ks supported cnf = None"
    and "(t, c, r) \<in> triples_of cnf"
  shows "c \<in> set supported"
proof -
  have ks: "ks \<noteq> []" using assms(2) by (auto simp: validateTargetConfig_def)
  have "(\<lambda>(t, c, r). validate_recipient supported t c r) =
       (\<lambda>tcr. if invalid_triple supported tcr then Some (triple_error supported tcr) else None)"
    by (simp add: fun_eq_iff validate_recipient_eq)
  with assms(2) ks have "find (invalid_triple supported) (triples_in_order ks cnf) = None"
    by (simp add: validate_triples first_error_if)
  then have "\<forall>x \<in> set (triples_in_order ks cnf). \<not> invalid_triple supported x"
    by (simp add: find_None_iff_all)
  with assms(1,3) show ?thesis
    by (auto simp: set_triples_in_order key_order_def invalid_triple_def)
qed

text \<open>
  The fan-out of the handler, for any configuration and any senders: when the map holds
  a sender for each delivery of the target, the handler makes the expected calls and
  responds with status 200.
\<close>

lemma newMessageHandler_fan_out:
  assumes "Get (query r) ''target'' \<noteq> []"
    and "targets_of cnf (Get (query r) ''target'') = Some tg"
    and "req_body r = Body bytes"
    and "json_decode bytes = Some msg"
    and "Text msg \<noteq> []"
    and "\<forall>d \<in> set (deliveries tg). senders (name d) \<noteq> None"
  shows "newMessageHandler json_decode quote cnf senders r =
           Served \<lparr>status = 200, resp_body = []\<rparr>
             (expected_calls (deliveries tg) msg)
             (expected_failures senders (deliveries tg) msg)"
  using assms fan_out_all[of "deliveries tg" senders msg]
  by (simp add: newMessageHandler_def Let_def StatusOK_def)

text \<open>
  The comment in the handler says that \<^verbatim>\<open>NewHandler\<close> guarantees a sender for every
  delivery. It does, for a configuration that \<^verbatim>\<open>Decode\<close> has built: there every delivery
  has a recipient, so the validation has looked at its channel.
\<close>

lemma NewHandler_senders:
  assumes "populated (targets_of cnf)"
    and "key_order (targets_of cnf) ks"
    and "key_order senders sks"
    and "NewHandler ks sks cnf senders = Inr srv"
    and "targets_of cnf t = Some tg"
    and "d \<in> set (deliveries tg)"
  shows "senders (name d) \<noteq> None"
proof -
  from assms(4) have v: "validateTargetConfig ks sks cnf = None"
    by (auto simp: NewHandler_def Let_def split: option.splits)
  from populatedD[OF assms(1,5,6)] obtain x where "x \<in> set (recipients d)"
    by (cases "recipients d") auto
  with assms(5,6) have "(t, name d, x) \<in> triples_of cnf"
    by (auto simp: triples_of_def map_triples_def)
  from validate_None_supported[OF assms(2) v this] assms(3) show ?thesis
    by (auto simp: key_order_def)
qed

lemma test_targets_map:
  "targets_of test_targets =
     [''test'' \<mapsto> \<lparr>deliveries = [\<lparr>name = ''smtp'', recipients = [''email@example.com'']\<rparr>]\<rparr>]"
  by (simp add: test_targets_def decoded_targets)

lemma test_request_target: "Get (query (test_request tgt b)) ''target'' = tgt"
  by (simp add: test_request_def Get_def query_of_def)

text \<open>
  Claim C1. Take a handler that \<^verbatim>\<open>NewHandler\<close> has made from a decoded configuration,
  and a request whose parameter \<^verbatim>\<open>target\<close> names a target of the configuration and whose
  body decodes to a message with a text. Serving the request calls \<^verbatim>\<open>Send\<close> once for
  each delivery of the target, with the recipients of the delivery and the message,
  logs the calls that returned an error, and responds with status 200 whatever the
  senders returned.
\<close>

theorem handler_fan_out:
  assumes "Decode empty_config s = (cnf, None)"
    and "key_order (targets_of cnf) ks"
    and "key_order senders sks"
    and "NewHandler ks sks cnf senders = Inr srv"
    and "targets_of cnf (Get (query r) ''target'') = Some tg"
    and "req_body r = Body bytes"
    and "json_decode bytes = Some msg"
    and "Text msg \<noteq> []"
  shows "serve json_decode quote srv r =
           Served \<lparr>status = 200, resp_body = []\<rparr>
             (expected_calls (deliveries tg) msg)
             (expected_failures (h_senders srv) (deliveries tg) msg) \<and>
         length (expected_calls (deliveries tg) msg) = length (deliveries tg)"
proof -
  from assms(4) have srv: "srv = \<lparr>h_senders = senders, h_targets = cnf\<rparr>"
    by (auto simp: NewHandler_def Let_def split: option.splits)
  have p: "populated (targets_of cnf)"
    using Decode_populated[OF populated_empty, of s] assms(1) by simp
  from p assms(5) have t: "Get (query r) ''target'' \<noteq> []"
    by (auto simp: populated_def)
  have "\<forall>d \<in> set (deliveries tg). senders (name d) \<noteq> None"
    using NewHandler_senders[OF p assms(2,3,4,5)] by blast
  from newMessageHandler_fan_out[where json_decode = json_decode and senders = senders
      and quote = quote, OF t assms(5,6,7,8) this] srv
  show ?thesis
    by (simp add: serve_def expected_calls_def)
qed

theorem handler_fan_out_witness:
  "serve test_json_decode plain_quote \<lparr>h_senders = test_senders, h_targets = test_targets\<rparr>
     (test_request ''test'' (Body ''message'')) =
   Served \<lparr>status = 200, resp_body = []\<rparr>
     [\<lparr>channel = ''smtp'', rcpts = [''email@example.com''], message = test_message\<rparr>]
     [\<lparr>failed_delivery = ''smtp'', failure = OtherError ''Unknown error'', failed_message = test_message\<rparr>]"
proof -
  have m: "MatchString reEmail ''email@example.com''"
    by code_simp
  have 1: "Decode empty_config ''test:smtp:email@example.com'' = (test_targets, None)"
    by (simp add: test_targets_def Decode_def decode_entry_def Let_def split: prod.splits)
  have 2: "key_order (targets_of test_targets) [''test'']"
    by (simp add: key_order_def test_targets_map)
  have 3: "key_order test_senders [DeliverySMTP]"
    by (simp add: key_order_def test_senders_def)
  have 4: "NewHandler [''test''] [DeliverySMTP] test_targets test_senders =
             Inr \<lparr>h_senders = test_senders, h_targets = test_targets\<rparr>"
    by (simp add: NewHandler_def validateTargetConfig_def test_targets_map validate_recipient_def
        DeliverySMTP_def m)
  have 5: "targets_of test_targets (Get (query (test_request ''test'' (Body ''message''))) ''target'') =
             Some \<lparr>deliveries = [\<lparr>name = ''smtp'', recipients = [''email@example.com'']\<rparr>]\<rparr>"
    by (simp add: test_request_target test_targets_map)
  have 6: "req_body (test_request ''test'' (Body ''message'')) = Body ''message''"
    by (simp add: test_request_def)
  have 7: "test_json_decode ''message'' = Some test_message"
    by (simp add: test_json_decode_def)
  have 8: "Text test_message \<noteq> []"
    by (simp add: test_message_def)
  from handler_fan_out[where json_decode = test_json_decode and quote = plain_quote, OF 1 2 3 4 5 6 7 8]
  show ?thesis
    by (simp add: expected_calls_def expected_failures_def test_senders_def DeliverySMTP_def
        test_failing_sender_def)
qed

text \<open>
  Claim C6, amended. Without a parameter \<^verbatim>\<open>target\<close>, or with an empty one, the response
  has status 400 and its body is the line \<^verbatim>\<open>Parameter 'target' is missed\<close> followed by an
  empty line. For a target that the configuration does not have, the response has
  status 400 and its body is \<^verbatim>\<open>Unknown target\<close> followed by the quoted name and a line
  feed. For a request without a body, with a body that does not decode, or that decodes
  to a message with an empty text, the status is 400. In all these cases no \<^verbatim>\<open>Send\<close> is
  called.
\<close>

theorem handler_request_errors:
  "(Get (query r) ''target'' = [] \<longrightarrow>
      newMessageHandler json_decode quote cnf senders r =
        Served \<lparr>status = 400, resp_body = ''Parameter 'target' is missed'' @ newline @ newline\<rparr> [] []) \<and>
   (Get (query r) ''target'' \<noteq> [] \<and> targets_of cnf (Get (query r) ''target'') = None \<longrightarrow>
      newMessageHandler json_decode quote cnf senders r =
        Served \<lparr>status = 400,
                resp_body = ''Unknown target '' @ quote (Get (query r) ''target'') @ newline\<rparr> [] []) \<and>
   (req_body r = NoBody \<or>
    (\<exists>bytes. req_body r = Body bytes \<and>
       (json_decode bytes = None \<or> (\<exists>msg. json_decode bytes = Some msg \<and> Text msg = []))) \<longrightarrow>
      (\<exists>resp. newMessageHandler json_decode quote cnf senders r = Served resp [] [] \<and>
              status resp = 400))"
  by (auto simp: newMessageHandler_def Let_def http_Error_def Sprintln_def StatusBadRequest_def
      split: option.splits request_body.splits)

theorem handler_request_errors_witness:
  "newMessageHandler test_json_decode plain_quote test_targets test_senders request_without_target =
     Served \<lparr>status = 400, resp_body = ''Parameter 'target' is missed'' @ newline @ newline\<rparr> [] [] \<and>
   newMessageHandler test_json_decode plain_quote test_targets test_senders
       (test_request ''badtarget'' (Body ''message'')) =
     Served \<lparr>status = 400, resp_body = ''Unknown target '' @ plain_quote ''badtarget'' @ newline\<rparr> [] [] \<and>
   (\<exists>resp. newMessageHandler test_json_decode plain_quote test_targets test_senders
       (test_request ''test'' (Body ''Invalid body'')) = Served resp [] [] \<and> status resp = 400) \<and>
   (\<exists>resp. newMessageHandler test_json_decode plain_quote test_targets test_senders
       (test_request ''test'' (Body ''no text'')) = Served resp [] [] \<and> status resp = 400) \<and>
   (\<exists>resp. newMessageHandler test_json_decode plain_quote test_targets test_senders
       (test_request ''test'' NoBody) = Served resp [] [] \<and> status resp = 400)"
proof -
  have 1: "Get (query request_without_target) ''target'' = []"
    by (simp add: request_without_target_def Get_def query_of_def)
  have 2: "targets_of test_targets ''badtarget'' = None"
    by (simp add: test_targets_map)
  have 3: "test_json_decode ''Invalid body'' = None"
      "test_json_decode ''no text'' = Some \<lparr>Subject = ''Test Subject'', Text = []\<rparr>"
    by (simp_all add: test_json_decode_def)
  have 4: "req_body (test_request t b) = b" for t b
    by (simp add: test_request_def)
  note h = handler_request_errors[where json_decode = test_json_decode and quote = plain_quote
      and cnf = test_targets and senders = test_senders]
  from h[where r = request_without_target]
    h[where r = "test_request ''badtarget'' (Body ''message'')"]
    h[where r = "test_request ''test'' (Body ''Invalid body'')"]
    h[where r = "test_request ''test'' (Body ''no text'')"]
    h[where r = "test_request ''test'' NoBody"]
  show ?thesis
    by (simp add: 1 2 3 4 test_request_target)
qed

text \<open>
  Claim C6 as stated: the body of the response to a request without target is not the
  text \<^verbatim>\<open>Parameter 'target' is missed\<close> alone; two line feeds follow it.
\<close>

theorem handler_missing_target_body_counterexample:
  "map_option resp_body
     (served_response
        (newMessageHandler test_json_decode plain_quote test_targets test_senders request_without_target))
   \<noteq> Some ''Parameter 'target' is missed''"
  by (simp add: newMessageHandler_def request_without_target_def Get_def query_of_def
      http_Error_def Sprintln_def newline_def)

end
